theory Spec2Isabelle
  imports Main
begin

section \<open>Data model\<close>

text \<open>
  The repository holds two implementations of the same summarizer: \<^verbatim>\<open>index.js\<close> (browser,
  IndexedDB cache, SHA-256 fingerprints) and \<^verbatim>\<open>script.js\<close> (Node, file cache, MD5
  fingerprints). Functions that exist in both files carry the suffix \<open>_index\<close> or
  \<open>_script\<close>; a function that is textually the same in both files is modelled once.

  A JavaScript string is a \<^typ>\<open>string\<close>: one list element per code unit, so that
  \<^const>\<open>length\<close> is \<^verbatim>\<open>.length\<close>. A string is falsy exactly when it is empty. An absent
  (\<^verbatim>\<open>null\<close>, \<^verbatim>\<open>undefined\<close>) message text or speaker name behaves like the empty string
  in every place the code reads it, and is modelled as \<open>[]\<close>.
\<close>

text \<open>The object literal \<^verbatim>\<open>{ name, is_user, mes }\<close> stored in a block.\<close>

record blockMsg =
  name :: string
  is_user :: bool
  mes :: string

text \<open>A message of the host's chat: the same fields and \<^verbatim>\<open>is_system\<close>.\<close>

record message = blockMsg +
  is_system :: bool

text \<open>\<^verbatim>\<open>{ hash: blockHash, details: [...currentBlock] }\<close>\<close>

record block =
  hash :: string
  details :: "blockMsg list"

section \<open>ContentHasher\<close>

text \<open>\<^verbatim>\<open>Array.prototype.join\<close> on an array of strings.\<close>

fun join :: "string \<Rightarrow> string list \<Rightarrow> string" where
  "join sep [] = []"
| "join sep [x] = x"
| "join sep (x # y # ys) = x @ sep @ join sep (y # ys)"

text \<open>
  \<^verbatim>\<open>blockDetails.map(msg => `${msg.is_user ? 'U' : 'C'}:${msg.mes}`).join('|')\<close>,
  the string both files feed to the digest.
\<close>

definition contentString :: "blockMsg list \<Rightarrow> string" where
  "contentString blockDetails =
     join ''|'' (map (\<lambda>msg. (if is_user msg then ''U'' else ''C'') @ '':'' @ mes msg) blockDetails)"

text \<open>
  The digest itself is a library function (\<^verbatim>\<open>crypto.subtle.digest('SHA-256', _)\<close> rendered
  in hex in \<^verbatim>\<open>index.js\<close>, \<^verbatim>\<open>crypto.createHash('md5')\<close> in \<^verbatim>\<open>script.js\<close>); it is the
  parameter \<open>digest\<close>.
\<close>

definition getBlockHash :: "(string \<Rightarrow> string) \<Rightarrow> blockMsg list \<Rightarrow> string" where
  "getBlockHash digest blockDetails = digest (contentString blockDetails)"

section \<open>BlockSegmenter\<close>

text \<open>The loop variables \<^verbatim>\<open>blocks\<close>, \<^verbatim>\<open>currentBlock\<close>, \<^verbatim>\<open>currentBlockLength\<close>.\<close>

record seg_state =
  blocks :: "block list"
  currentBlock :: "blockMsg list"
  currentBlockLength :: int

definition seg_init :: seg_state where
  "seg_init = \<lparr>blocks = [], currentBlock = [], currentBlockLength = 0\<rparr>"

text \<open>\<^verbatim>\<open>message.mes ? message.mes.length : 0\<close>\<close>

definition messageLength :: "'a blockMsg_scheme \<Rightarrow> int" where
  "messageLength message = int (length (mes message))"

definition toBlockMsg :: "message \<Rightarrow> blockMsg" where
  "toBlockMsg message = \<lparr>name = name message, is_user = is_user message, mes = mes message\<rparr>"

text \<open>\<^verbatim>\<open>blocks.push({ hash: getBlockHash(currentBlock), details: [...currentBlock] })\<close>\<close>

definition pushBlock :: "(string \<Rightarrow> string) \<Rightarrow> block list \<Rightarrow> blockMsg list \<Rightarrow> block list" where
  "pushBlock digest bs cur = bs @ [\<lparr>hash = getBlockHash digest cur, details = cur\<rparr>]"

text \<open>One iteration of the \<^verbatim>\<open>for (const message of chatHistory)\<close> loop of \<^verbatim>\<open>generateBlocks\<close> (index.js).\<close>

definition generateBlocks_step :: "(string \<Rightarrow> string) \<Rightarrow> int \<Rightarrow> seg_state \<Rightarrow> message \<Rightarrow> seg_state" where
  "generateBlocks_step digest blockSize st message =
     (if is_system message then st
      else if messageLength message = 0 then st
      else if currentBlock st \<noteq> [] \<and> currentBlockLength st + messageLength message > blockSize
      then \<lparr>blocks = pushBlock digest (blocks st) (currentBlock st),
            currentBlock = [toBlockMsg message],
            currentBlockLength = messageLength message\<rparr>
      else \<lparr>blocks = blocks st,
            currentBlock = currentBlock st @ [toBlockMsg message],
            currentBlockLength = currentBlockLength st + messageLength message\<rparr>)"

text \<open>After the loop: \<^verbatim>\<open>if (currentBlock.length > 0) blocks.push(...)\<close>.\<close>

definition seg_finish :: "(string \<Rightarrow> string) \<Rightarrow> seg_state \<Rightarrow> block list" where
  "seg_finish digest st =
     (if currentBlock st \<noteq> [] then pushBlock digest (blocks st) (currentBlock st) else blocks st)"

definition generateBlocks :: "(string \<Rightarrow> string) \<Rightarrow> int \<Rightarrow> message list \<Rightarrow> block list" where
  "generateBlocks digest blockSize chatHistory =
     seg_finish digest (foldl (generateBlocks_step digest blockSize) seg_init chatHistory)"

text \<open>
  One iteration of the first loop of \<^verbatim>\<open>processHistoryForSummarization\<close> (script.js). The
  block is closed first, also when it already holds more than 100 messages; the message
  is added afterwards, when it has content.
\<close>

definition processHistory_close :: "(string \<Rightarrow> string) \<Rightarrow> int \<Rightarrow> seg_state \<Rightarrow> message \<Rightarrow> seg_state" where
  "processHistory_close digest blockSize st message =
     (if currentBlock st \<noteq> [] \<and>
         (currentBlockLength st + messageLength message > blockSize \<or> length (currentBlock st) > 100)
      then \<lparr>blocks = pushBlock digest (blocks st) (currentBlock st),
            currentBlock = [],
            currentBlockLength = 0\<rparr>
      else st)"

definition processHistory_add :: "seg_state \<Rightarrow> message \<Rightarrow> seg_state" where
  "processHistory_add st message =
     (if messageLength message > 0
      then st\<lparr>currentBlock := currentBlock st @ [toBlockMsg message],
              currentBlockLength := currentBlockLength st + messageLength message\<rparr>
      else st)"

definition processHistory_step :: "(string \<Rightarrow> string) \<Rightarrow> int \<Rightarrow> seg_state \<Rightarrow> message \<Rightarrow> seg_state" where
  "processHistory_step digest blockSize st message =
     processHistory_add (processHistory_close digest blockSize st message) message"

definition processHistory_blocks :: "(string \<Rightarrow> string) \<Rightarrow> int \<Rightarrow> message list \<Rightarrow> block list" where
  "processHistory_blocks digest blockSize chatHistory =
     seg_finish digest (foldl (processHistory_step digest blockSize) seg_init chatHistory)"

text \<open>
  The measures the segmentation properties are stated with: the summed text lengths of a
  block, and the budget rule (within the budget, or one message that is over it alone).
\<close>

definition blockChars :: "blockMsg list \<Rightarrow> int" where
  "blockChars ds = sum_list (map messageLength ds)"

definition withinBudget :: "int \<Rightarrow> blockMsg list \<Rightarrow> bool" where
  "withinBudget blockSize ds =
     (blockChars ds \<le> blockSize \<or> (\<exists>m. ds = [m] \<and> blockSize < messageLength m))"

text \<open>The loop invariant of both segmentation loops.\<close>

definition seg_inv :: "int \<Rightarrow> seg_state \<Rightarrow> bool" where
  "seg_inv blockSize st =
     ((\<forall>b \<in> set (blocks st). details b \<noteq> [] \<and> withinBudget blockSize (details b)) \<and>
      currentBlockLength st = blockChars (currentBlock st) \<and>
      (currentBlock st = [] \<or> withinBudget blockSize (currentBlock st)))"

text \<open>All messages held by a segmentation state, emitted or pending, in order.\<close>

definition seg_messages :: "seg_state \<Rightarrow> blockMsg list" where
  "seg_messages st = concat (map details (blocks st)) @ currentBlock st"

section \<open>SummaryCache\<close>

text \<open>
  The in-memory layer is the module variable \<^verbatim>\<open>blockCache\<close> (a \<^verbatim>\<open>Map\<close>); the durable layer
  is the IndexedDB object store of \<^verbatim>\<open>index.js\<close> or the directory of \<^verbatim>\<open>hash.json\<close> files of
  \<^verbatim>\<open>script.js\<close>, a map from hash to the stored summary.
\<close>

record cache_state =
  blockCache :: "string \<rightharpoonup> string"
  durable :: "string \<rightharpoonup> string"

text \<open>A rejected promise that reaches the caller.\<close>

datatype js_error = DbRequestError

text \<open>
  What the durable layer does during one operation is the environment's choice. For
  IndexedDB: the operation works, \<^verbatim>\<open>openDB()\<close> rejects (caught by the \<^verbatim>\<open>try\<close> around
  \<^verbatim>\<open>await openDB()\<close>), or the request fires \<^verbatim>\<open>onerror\<close> (the promise returned from inside the
  \<^verbatim>\<open>try\<close> is not awaited there, so its rejection passes the \<^verbatim>\<open>catch\<close> and reaches the
  caller). For the file system: the operation works or throws.
\<close>

datatype db_fault = DbOk | DbOpenFailed | DbRequestFailed

datatype fs_fault = FsOk | FsFailed

text \<open>
  \<^verbatim>\<open>fs.writeFile\<close> opens the file for writing, which truncates it, and then writes the data;
  it is not atomic. A write that throws before the file is opened leaves the file as it
  was. A write that throws later leaves a file that \<^verbatim>\<open>JSON.parse\<close> rejects, which
  \<^verbatim>\<open>getSummaryFromCache\<close> reads as \<^verbatim>\<open>null\<close>, as it reads a missing file: the old entry is gone.
\<close>

datatype fs_write_fault = WriteOk | WriteFailedUntouched | WriteFailedTruncated

definition getItemFromDB :: "db_fault \<Rightarrow> string \<Rightarrow> cache_state \<Rightarrow> js_error + string option" where
  "getItemFromDB fault h st =
     (case fault of
        DbOpenFailed \<Rightarrow> Inr None
      | DbRequestFailed \<Rightarrow> Inl DbRequestError
      | DbOk \<Rightarrow> Inr (durable st h))"

definition setItemInDB :: "db_fault \<Rightarrow> string \<Rightarrow> string \<Rightarrow> cache_state \<Rightarrow> (js_error + bool) \<times> cache_state" where
  "setItemInDB fault h summary st =
     (case fault of
        DbOpenFailed \<Rightarrow> (Inr False, st)
      | DbRequestFailed \<Rightarrow> (Inl DbRequestError, st)
      | DbOk \<Rightarrow> (Inr True, st\<lparr>durable := (durable st)(h \<mapsto> summary)\<rparr>))"

text \<open>\<^verbatim>\<open>getSummaryFromCache\<close> of index.js; \<open>None\<close> is \<^verbatim>\<open>null\<close>.\<close>

definition getSummaryFromCache_index ::
  "db_fault \<Rightarrow> string \<Rightarrow> cache_state \<Rightarrow> (js_error + string option) \<times> cache_state" where
  "getSummaryFromCache_index fault h st =
     (case blockCache st h of
        Some v \<Rightarrow> (Inr (Some v), st)
      | None \<Rightarrow>
          (case getItemFromDB fault h st of
             Inl e \<Rightarrow> (Inl e, st)
           | Inr None \<Rightarrow> (Inr None, st)
           | Inr (Some summaryFromDB) \<Rightarrow>
               (Inr (Some summaryFromDB), st\<lparr>blockCache := (blockCache st)(h \<mapsto> summaryFromDB)\<rparr>)))"

text \<open>
  \<^verbatim>\<open>saveSummaryToCache\<close> of index.js. The function has no \<^verbatim>\<open>return\<close>: the boolean of
  \<^verbatim>\<open>setItemInDB\<close> is dropped, and the value is \<^verbatim>\<open>undefined\<close> unless the awaited promise rejects.
\<close>

definition saveSummaryToCache_index ::
  "db_fault \<Rightarrow> string \<Rightarrow> string \<Rightarrow> cache_state \<Rightarrow> (js_error + unit) \<times> cache_state" where
  "saveSummaryToCache_index fault h summary st =
     (case setItemInDB fault h summary (st\<lparr>blockCache := (blockCache st)(h \<mapsto> summary)\<rparr>) of
        (Inl e, st') \<Rightarrow> (Inl e, st')
      | (Inr _, st') \<Rightarrow> (Inr (), st'))"

text \<open>
  \<^verbatim>\<open>getSummaryFromCache\<close> of script.js: every error of \<^verbatim>\<open>fs.access\<close>, \<^verbatim>\<open>fs.readFile\<close> or
  \<^verbatim>\<open>JSON.parse\<close> is caught and gives \<^verbatim>\<open>null\<close>; a missing file is \<^verbatim>\<open>ENOENT\<close>.
\<close>

definition getSummaryFromCache_script ::
  "fs_fault \<Rightarrow> string \<Rightarrow> cache_state \<Rightarrow> string option \<times> cache_state" where
  "getSummaryFromCache_script fault h st =
     (case blockCache st h of
        Some v \<Rightarrow> (Some v, st)
      | None \<Rightarrow>
          (case fault of
             FsFailed \<Rightarrow> (None, st)
           | FsOk \<Rightarrow>
               (case durable st h of
                  None \<Rightarrow> (None, st)
                | Some summary \<Rightarrow> (Some summary, st\<lparr>blockCache := (blockCache st)(h \<mapsto> summary)\<rparr>))))"

text \<open>
  \<^verbatim>\<open>saveSummaryToCache\<close> of script.js: an error of \<^verbatim>\<open>fs.writeFile\<close> is caught and logged;
  the function returns \<^verbatim>\<open>undefined\<close> either way.
\<close>

definition saveSummaryToCache_script ::
  "fs_write_fault \<Rightarrow> string \<Rightarrow> string \<Rightarrow> cache_state \<Rightarrow> unit \<times> cache_state" where
  "saveSummaryToCache_script fault h summary st =
     (case fault of
        WriteOk \<Rightarrow> ((), st\<lparr>blockCache := (blockCache st)(h \<mapsto> summary),
                           durable := (durable st)(h \<mapsto> summary)\<rparr>)
      | WriteFailedUntouched \<Rightarrow> ((), st\<lparr>blockCache := (blockCache st)(h \<mapsto> summary)\<rparr>)
      | WriteFailedTruncated \<Rightarrow> ((), st\<lparr>blockCache := (blockCache st)(h \<mapsto> summary),
                                        durable := (durable st)(h := None)\<rparr>))"

section \<open>SummarizationClient\<close>

text \<open>
  What \<^verbatim>\<open>fetch\<close> gives for one request is the environment's choice: it throws, or it
  resolves to a response with a status and a body. The body cannot be read, is not JSON,
  or is a JSON object whose \<^verbatim>\<open>summary\<close> field is absent (\<open>None\<close>) or a string.
\<close>

datatype body = Unreadable | NotJson | JsonBody "string option"

datatype fetch_result = FetchThrew | Response nat body

text \<open>\<^verbatim>\<open>response.ok\<close>\<close>

definition response_ok :: "nat \<Rightarrow> bool" where
  "response_ok status = (200 \<le> status \<and> status \<le> 299)"

text \<open>Decimal rendering of a number in a template literal.\<close>

definition digitChar :: "nat \<Rightarrow> char" where
  "digitChar d = ''0123456789'' ! d"

fun show_nat :: "nat \<Rightarrow> string" where
  "show_nat n = (if n < 10 then [digitChar n] else show_nat (n div 10) @ [digitChar (n mod 10)])"

declare show_nat.simps [simp del]

text \<open>\<^verbatim>\<open>String.prototype.startsWith\<close>\<close>

definition startsWith :: "string \<Rightarrow> string \<Rightarrow> bool" where
  "startsWith s p = (take (length p) s = p)"

text \<open>
  \<^verbatim>\<open>callSummarizationApi\<close> of index.js, as a function of the configured \<^verbatim>\<open>apiUrl\<close> and of
  what the endpoint answered. \<open>None\<close> is \<^verbatim>\<open>null\<close>; \<^verbatim>\<open>result.summary || null\<close> turns the empty
  string and an absent field into \<^verbatim>\<open>null\<close>.
\<close>

definition callSummarizationApi_index :: "string \<Rightarrow> fetch_result \<Rightarrow> string option" where
  "callSummarizationApi_index apiUrl fr =
     (if apiUrl = [] then None
      else case fr of
        FetchThrew \<Rightarrow> Some ''[Error: Network/Fetch failed]''
      | Response status b \<Rightarrow>
          (if \<not> response_ok status
           then (case b of
                   Unreadable \<Rightarrow> Some ''[Error: Network/Fetch failed]''
                 | _ \<Rightarrow> Some (''[Error: API response '' @ show_nat status @ '']''))
           else (case b of
                   Unreadable \<Rightarrow> Some ''[Error: Network/Fetch failed]''
                 | NotJson \<Rightarrow> Some ''[Error: Network/Fetch failed]''
                 | JsonBody None \<Rightarrow> None
                 | JsonBody (Some summary) \<Rightarrow> (if summary = [] then None else Some summary))))"

text \<open>
  \<^verbatim>\<open>callSummarizationApi\<close> of script.js: every failure is \<^verbatim>\<open>null\<close>; an absent \<^verbatim>\<open>summary\<close>
  field makes \<^verbatim>\<open>result.summary.substring\<close> throw inside the \<^verbatim>\<open>try\<close>.
\<close>

definition callSummarizationApi_script :: "string \<Rightarrow> fetch_result \<Rightarrow> string option" where
  "callSummarizationApi_script apiUrl fr =
     (if apiUrl = [] then None
      else case fr of
        FetchThrew \<Rightarrow> None
      | Response status b \<Rightarrow>
          (if \<not> response_ok status then None
           else (case b of
                   Unreadable \<Rightarrow> None
                 | NotJson \<Rightarrow> None
                 | JsonBody None \<Rightarrow> None
                 | JsonBody (Some summary) \<Rightarrow> (if summary = [] then None else Some summary))))"

section \<open>SummaryOrchestrator\<close>

text \<open>
  What the outside world does while block \<open>i\<close> is processed: the fault of the cache read,
  the endpoint's answer, the fault of the cache write. Each is consulted at most once per
  block.
\<close>

record ('r, 'w) block_env =
  readFault :: 'r
  apiResponse :: fetch_result
  writeFault :: 'w

text \<open>
  The body of the loop of \<^verbatim>\<open>summarizeAllBlocks\<close> (index.js) for \<^verbatim>\<open>blocks[i]\<close>: the summary
  pushed and the new value of \<^verbatim>\<open>hasError\<close>. In the failure branch
  \<^verbatim>\<open>summary || `[Summary generation failed for block ${i + 1}]`\<close> keeps a non-null \<^verbatim>\<open>summary\<close>,
  which starts with \<^verbatim>\<open>[Error:\<close> there.
\<close>

definition summarizeAllBlocks_body ::
  "string \<Rightarrow> (db_fault, db_fault) block_env \<Rightarrow> nat \<Rightarrow> block \<Rightarrow> bool \<Rightarrow> cache_state \<Rightarrow>
   (js_error + string \<times> bool) \<times> cache_state" where
  "summarizeAllBlocks_body apiUrl e i b hasError st =
     (case getSummaryFromCache_index (readFault e) (hash b) st of
        (Inl err, st1) \<Rightarrow> (Inl err, st1)
      | (Inr (Some summary), st1) \<Rightarrow> (Inr (summary, hasError), st1)
      | (Inr None, st1) \<Rightarrow>
          (case callSummarizationApi_index apiUrl (apiResponse e) of
             Some summary \<Rightarrow>
               (if \<not> startsWith summary ''[Error:''
                then (case saveSummaryToCache_index (writeFault e) (hash b) summary st1 of
                        (Inl err, st2) \<Rightarrow> (Inl err, st2)
                      | (Inr _, st2) \<Rightarrow> (Inr (summary, hasError), st2))
                else (Inr (summary, True), st1))
           | None \<Rightarrow>
               (Inr (''[Summary generation failed for block '' @ show_nat (i + 1) @ '']'', True), st1)))"

fun summarizeAllBlocks_loop ::
  "string \<Rightarrow> (nat \<Rightarrow> (db_fault, db_fault) block_env) \<Rightarrow> nat \<Rightarrow> block list \<Rightarrow> string list \<Rightarrow> bool \<Rightarrow>
   cache_state \<Rightarrow> (js_error + string list \<times> bool) \<times> cache_state" where
  "summarizeAllBlocks_loop apiUrl env i [] blockSummaries hasError st =
     (Inr (blockSummaries, hasError), st)"
| "summarizeAllBlocks_loop apiUrl env i (b # rest) blockSummaries hasError st =
     (case summarizeAllBlocks_body apiUrl (env i) i b hasError st of
        (Inl err, st1) \<Rightarrow> (Inl err, st1)
      | (Inr (summary, hasError1), st1) \<Rightarrow>
          summarizeAllBlocks_loop apiUrl env (Suc i) rest (blockSummaries @ [summary]) hasError1 st1)"

definition summarizeAllBlocks ::
  "string \<Rightarrow> (nat \<Rightarrow> (db_fault, db_fault) block_env) \<Rightarrow> block list \<Rightarrow> cache_state \<Rightarrow>
   (js_error + string list \<times> bool) \<times> cache_state" where
  "summarizeAllBlocks apiUrl env bs st = summarizeAllBlocks_loop apiUrl env 0 bs [] False st"

text \<open>
  The body of the second loop of \<^verbatim>\<open>processHistoryForSummarization\<close> (script.js). Nothing
  throws here, and there is no error flag.
\<close>

definition processHistory_body ::
  "string \<Rightarrow> (fs_fault, fs_write_fault) block_env \<Rightarrow> nat \<Rightarrow> block \<Rightarrow> cache_state \<Rightarrow> string \<times> cache_state" where
  "processHistory_body apiUrl e i b st =
     (case getSummaryFromCache_script (readFault e) (hash b) st of
        (Some summary, st1) \<Rightarrow> (summary, st1)
      | (None, st1) \<Rightarrow>
          (case callSummarizationApi_script apiUrl (apiResponse e) of
             Some summary \<Rightarrow> (summary, snd (saveSummaryToCache_script (writeFault e) (hash b) summary st1))
           | None \<Rightarrow> (''[Error summarizing block '' @ show_nat (i + 1) @ '']'', st1)))"

fun processHistory_summaries ::
  "string \<Rightarrow> (nat \<Rightarrow> (fs_fault, fs_write_fault) block_env) \<Rightarrow> nat \<Rightarrow> block list \<Rightarrow> string list \<Rightarrow>
   cache_state \<Rightarrow> string list \<times> cache_state" where
  "processHistory_summaries apiUrl env i [] blockSummaries st = (blockSummaries, st)"
| "processHistory_summaries apiUrl env i (b # rest) blockSummaries st =
     (case processHistory_body apiUrl (env i) i b st of
        (summary, st1) \<Rightarrow>
          processHistory_summaries apiUrl env (Suc i) rest (blockSummaries @ [summary]) st1)"

text \<open>\<^verbatim>\<open>processHistoryForSummarization\<close>: segmentation, then the summaries; returns both.\<close>

definition processHistoryForSummarization ::
  "(string \<Rightarrow> string) \<Rightarrow> int \<Rightarrow> string \<Rightarrow> (nat \<Rightarrow> (fs_fault, fs_write_fault) block_env) \<Rightarrow> message list \<Rightarrow>
   cache_state \<Rightarrow> (block list \<times> string list) \<times> cache_state" where
  "processHistoryForSummarization digest blockSize apiUrl env chatHistory st =
     (let bs = processHistory_blocks digest blockSize chatHistory in
      case processHistory_summaries apiUrl env 0 bs [] st of
        (blockSummaries, st') \<Rightarrow> ((bs, blockSummaries), st'))"

section \<open>PromptComposer\<close>

text \<open>
  Steps 4 and 5 of \<^verbatim>\<open>onPromptInput\<close> (script.js). The cost of a message,
  \<^verbatim>\<open>(message.name ? message.name.length + 2 : 0) + (message.mes ? message.mes.length : 0)\<close>:
\<close>

definition msgChars :: "'a blockMsg_scheme \<Rightarrow> int" where
  "msgChars message =
     (if name message \<noteq> [] then int (length (name message)) + 2 else 0) +
     (if mes message \<noteq> [] then int (length (mes message)) else 0)"

text \<open>\<^verbatim>\<open>Math.max(0, settings.historySize * 4 - summaryPromptPart.length)\<close>\<close>

definition remainingCharsForHistory :: "int \<Rightarrow> string \<Rightarrow> int" where
  "remainingCharsForHistory historySize summaryPromptPart =
     max 0 (historySize * 4 - int (length summaryPromptPart))"

text \<open>
  The loop \<^verbatim>\<open>for (let i = chatHistory.length - 1; i >= 0; i--)\<close>: the second argument is
  what is left to visit, most recent message first; \<^verbatim>\<open>unshift\<close> puts a kept message in
  front of \<^verbatim>\<open>truncatedHistory\<close>; \<^verbatim>\<open>break\<close> ends the loop.
\<close>

fun truncate_loop :: "int \<Rightarrow> message list \<Rightarrow> message list \<Rightarrow> int \<Rightarrow> message list" where
  "truncate_loop remaining [] truncatedHistory currentChars = truncatedHistory"
| "truncate_loop remaining (message # older) truncatedHistory currentChars =
     (if currentChars + msgChars message \<le> remaining
      then truncate_loop remaining older (message # truncatedHistory) (currentChars + msgChars message)
      else truncatedHistory)"

definition onPromptInput_truncate :: "int \<Rightarrow> string \<Rightarrow> message list \<Rightarrow> message list" where
  "onPromptInput_truncate historySize summaryPromptPart chatHistory =
     truncate_loop (remainingCharsForHistory historySize summaryPromptPart) (rev chatHistory) [] 0"

text \<open>The cost the specification names: \<open>len(name) + 2 + len(text)\<close>.\<close>

definition claimedChars :: "'a blockMsg_scheme \<Rightarrow> int" where
  "claimedChars message = int (length (name message)) + 2 + int (length (mes message))"

section \<open>Trigger-driven summarization (index.js)\<close>

text \<open>
  \<^verbatim>\<open>checkAndSummarize\<close> is an \<^verbatim>\<open>async\<close> function. A call runs without interruption up to its
  first \<^verbatim>\<open>await\<close> (line 310) and is suspended there; other handlers run in between; the
  call resumes with what the awaited functions delivered and runs to the end of its
  \<^verbatim>\<open>finally\<close> block. The state holds the module variables, the two settings the function
  reads, the argument of the last call of \<^verbatim>\<open>updatePromptWithSummary\<close>, and the suspended
  calls, each with its local \<^verbatim>\<open>currentMessageCount\<close>.
\<close>

record pass =
  currentMessageCount :: int

record summarizer_state =
  enabled :: bool
  triggerThreshold :: int
  inApiCall :: bool
  lastMessageCount :: int
  lastSummaryContent :: string
  promptSummary :: string
  passes :: "pass list"

definition initial :: "bool \<Rightarrow> int \<Rightarrow> summarizer_state" where
  "initial en threshold =
     \<lparr>enabled = en, triggerThreshold = threshold, inApiCall = False, lastMessageCount = 0,
      lastSummaryContent = [], promptSummary = [], passes = []\<rparr>"

text \<open>\<^verbatim>\<open>String.prototype.trim\<close> on the code units below 256.\<close>

definition js_whitespace :: "char \<Rightarrow> bool" where
  "js_whitespace c =
     (c \<in> set [CHR 0x09, CHR 0x0A, CHR 0x0B, CHR 0x0C, CHR 0x0D, CHR 0x20, CHR 0xA0])"

definition trim :: "string \<Rightarrow> string" where
  "trim s = rev (dropWhile js_whitespace (rev (dropWhile js_whitespace s)))"

text \<open>Lines 297 to 310 and the \<^verbatim>\<open>else\<close> branch of line 338: the part before the first \<^verbatim>\<open>await\<close>.\<close>

definition checkAndSummarize_begin :: "message list \<Rightarrow> summarizer_state \<Rightarrow> summarizer_state" where
  "checkAndSummarize_begin chat s =
     (if \<not> enabled s \<or> inApiCall s then s
      else
        let currentMessageCount = int (length (filter (\<lambda>m. \<not> is_system m \<and> mes m \<noteq> []) chat));
            messagesSinceLastCheck = currentMessageCount - lastMessageCount s
        in if messagesSinceLastCheck \<ge> triggerThreshold s
           then s\<lparr>inApiCall := True,
                  passes := passes s @ [\<lparr>currentMessageCount = currentMessageCount\<rparr>]\<rparr>
           else s\<lparr>promptSummary := lastSummaryContent s\<rparr>)"

text \<open>
  What the awaited \<^verbatim>\<open>generateBlocks\<close> and \<^verbatim>\<open>summarizeAllBlocks\<close> delivered to a suspended call:
  an exception, no blocks, or the summaries and the error flag.
\<close>

datatype pass_outcome = Threw | NoBlocks | Summaries "string list" bool

text \<open>
  Lines 311 to 336 for the suspended call number \<open>k\<close>: the rest of the \<^verbatim>\<open>try\<close>, the \<^verbatim>\<open>catch\<close>
  and the \<^verbatim>\<open>finally\<close>.
\<close>

definition checkAndSummarize_resume :: "nat \<Rightarrow> pass_outcome \<Rightarrow> summarizer_state \<Rightarrow> summarizer_state" where
  "checkAndSummarize_resume k outcome s =
     (if k < length (passes s)
      then
        let p = passes s ! k;
            rest = take k (passes s) @ drop (Suc k) (passes s);
            s1 = (case outcome of
                    Threw \<Rightarrow> s\<lparr>promptSummary := []\<rparr>
                  | NoBlocks \<Rightarrow> s\<lparr>promptSummary := [], lastMessageCount := currentMessageCount p\<rparr>
                  | Summaries blockSummaries hasError \<Rightarrow>
                      (let combinedSummary = trim (join [CHR 0x0A, CHR 0x0A] blockSummaries)
                       in if combinedSummary \<noteq> []
                          then s\<lparr>lastSummaryContent := combinedSummary,
                                 promptSummary := combinedSummary,
                                 lastMessageCount := currentMessageCount p\<rparr>
                          else s\<lparr>promptSummary := [],
                                 lastMessageCount := currentMessageCount p\<rparr>))
        in s1\<lparr>inApiCall := False, passes := rest\<rparr>
      else s)"

text \<open>\<^verbatim>\<open>forceSummarize\<close>: \<^verbatim>\<open>lastMessageCount = 0; await checkAndSummarize()\<close>.\<close>

definition forceSummarize :: "message list \<Rightarrow> summarizer_state \<Rightarrow> summarizer_state" where
  "forceSummarize chat s = checkAndSummarize_begin chat (s\<lparr>lastMessageCount := 0\<rparr>)"

text \<open>
  What can happen, one handler at a time: a rendered message or the button triggers
  \<^verbatim>\<open>checkAndSummarize\<close> on the chat of that moment; a suspended call resumes; the settings
  are edited (\<^verbatim>\<open>handleSettingChange\<close>); the chat is switched (\<^verbatim>\<open>onChatChanged\<close>); the cache is
  cleared from the settings panel.
\<close>

datatype event =
    MessageRendered "message list"
  | ForceUpdateClicked "message list"
  | PassResumes nat pass_outcome
  | SettingsChanged bool int
  | ChatChanged
  | CacheCleared

fun fire :: "event \<Rightarrow> summarizer_state \<Rightarrow> summarizer_state" where
  "fire (MessageRendered chat) s = checkAndSummarize_begin chat s"
| "fire (ForceUpdateClicked chat) s = forceSummarize chat s"
| "fire (PassResumes k outcome) s = checkAndSummarize_resume k outcome s"
| "fire (SettingsChanged en threshold) s =
     s\<lparr>enabled := en, triggerThreshold := threshold, promptSummary := lastSummaryContent s\<rparr>"
| "fire ChatChanged s = s\<lparr>promptSummary := lastSummaryContent s\<rparr>"
| "fire CacheCleared s = s\<lparr>lastSummaryContent := [], promptSummary := []\<rparr>"

text \<open>The states reached from the initial one by any sequence of events.\<close>

inductive reachable :: "summarizer_state \<Rightarrow> bool" where
  start: "reachable (initial en threshold)"
| step: "reachable s \<Longrightarrow> reachable (fire ev s)"

section \<open>Notions used to state the orchestrator's properties\<close>

text \<open>The cache as it is when block \<open>i\<close> is reached: after blocks \<open>0 .. i - 1\<close> were processed.\<close>

definition cacheBefore_index ::
  "string \<Rightarrow> (nat \<Rightarrow> (db_fault, db_fault) block_env) \<Rightarrow> block list \<Rightarrow> cache_state \<Rightarrow> nat \<Rightarrow> cache_state" where
  "cacheBefore_index apiUrl env bs st i = snd (summarizeAllBlocks apiUrl env (take i bs) st)"

definition cacheBefore_script ::
  "string \<Rightarrow> (nat \<Rightarrow> (fs_fault, fs_write_fault) block_env) \<Rightarrow> block list \<Rightarrow> cache_state \<Rightarrow> nat \<Rightarrow> cache_state" where
  "cacheBefore_script apiUrl env bs st i = snd (processHistory_summaries apiUrl env 0 (take i bs) [] st)"

text \<open>
  A block fails in \<^verbatim>\<open>index.js\<close> when it is not cached and the client returns \<^verbatim>\<open>null\<close> or a
  string that starts with \<^verbatim>\<open>[Error:\<close>.
\<close>

definition blockFailed :: "string \<Rightarrow> (db_fault, db_fault) block_env \<Rightarrow> block \<Rightarrow> cache_state \<Rightarrow> bool" where
  "blockFailed apiUrl e b st =
     (fst (getSummaryFromCache_index (readFault e) (hash b) st) = Inr None \<and>
      (case callSummarizationApi_index apiUrl (apiResponse e) of
         None \<Rightarrow> True
       | Some s \<Rightarrow> startsWith s ''[Error:''))"

text \<open>
  The summary a block must get: the cached one; on a miss what the client returned; and
  the placeholder with the block's number, counted from 1, when the client returned
  \<^verbatim>\<open>null\<close>.
\<close>

definition blockSummaryOk_index ::
  "string \<Rightarrow> (db_fault, db_fault) block_env \<Rightarrow> nat \<Rightarrow> block \<Rightarrow> cache_state \<Rightarrow> string \<Rightarrow> bool" where
  "blockSummaryOk_index apiUrl e i b st summary =
     (case fst (getSummaryFromCache_index (readFault e) (hash b) st) of
        Inl _ \<Rightarrow> False
      | Inr (Some cached) \<Rightarrow> summary = cached
      | Inr None \<Rightarrow>
          (case callSummarizationApi_index apiUrl (apiResponse e) of
             None \<Rightarrow> summary = ''[Summary generation failed for block '' @ show_nat (i + 1) @ '']''
           | Some s \<Rightarrow> summary = s))"

definition blockSummaryOk_script ::
  "string \<Rightarrow> (fs_fault, fs_write_fault) block_env \<Rightarrow> nat \<Rightarrow> block \<Rightarrow> cache_state \<Rightarrow> string \<Rightarrow> bool" where
  "blockSummaryOk_script apiUrl e i b st summary =
     (case fst (getSummaryFromCache_script (readFault e) (hash b) st) of
        Some cached \<Rightarrow> summary = cached
      | None \<Rightarrow>
          (case callSummarizationApi_script apiUrl (apiResponse e) of
             None \<Rightarrow> summary = ''[Error summarizing block '' @ show_nat (i + 1) @ '']''
           | Some s \<Rightarrow> summary = s))"


text \<open>
  The invariant of the trigger: at most one suspended pass, and the flag is set exactly
  when there is one.
\<close>

definition one_pass :: "summarizer_state \<Rightarrow> bool" where
  "one_pass s = (length (passes s) \<le> 1 \<and> (inApiCall s \<longleftrightarrow> passes s \<noteq> []))"

section \<open>Concrete inputs\<close>

text \<open>
  A short chat: a user message, a system note, a message without text, a reply, and a
  message longer than the block size 6 it is segmented with.
\<close>

definition ex_history :: "message list" where
  "ex_history =
     [\<lparr>name = ''U'', is_user = True, mes = ''hi'', is_system = False\<rparr>,
      \<lparr>name = ''sys'', is_user = False, mes = ''note'', is_system = True\<rparr>,
      \<lparr>name = ''A'', is_user = False, mes = [], is_system = False\<rparr>,
      \<lparr>name = ''A'', is_user = False, mes = ''hey'', is_system = False\<rparr>,
      \<lparr>name = ''U'', is_user = True, mes = ''xxxxxxxxxx'', is_system = False\<rparr>]"

text \<open>A one-character message, and the segmentation state after \<open>''hi''\<close> alone.\<close>

definition ex_short :: message where
  "ex_short = \<lparr>name = ''U'', is_user = True, mes = ''a'', is_system = False\<rparr>"

definition ex_reply :: message where
  "ex_reply = \<lparr>name = ''A'', is_user = False, mes = ''hey'', is_system = False\<rparr>"

definition ex_seg_state :: seg_state where
  "ex_seg_state =
     \<lparr>blocks = [], currentBlock = [\<lparr>name = ''U'', is_user = True, mes = ''hi''\<rparr>],
      currentBlockLength = 2\<rparr>"

text \<open>A cache whose only entry is in the durable layer.\<close>

definition ex_cache :: cache_state where
  "ex_cache = \<lparr>blockCache = Map.empty, durable = [''h1'' \<mapsto> ''old summary'']\<rparr>"

text \<open>
  Three blocks: the first is summarized by the endpoint, the second gets a response
  without a summary, the third has its summary in the durable layer of \<open>ex_cache\<close>.
\<close>

definition ex_blocks :: "block list" where
  "ex_blocks =
     [\<lparr>hash = ''b0'', details = [\<lparr>name = ''U'', is_user = True, mes = ''hi''\<rparr>]\<rparr>,
      \<lparr>hash = ''b1'', details = [\<lparr>name = ''A'', is_user = False, mes = ''hey''\<rparr>]\<rparr>,
      \<lparr>hash = ''h1'', details = [\<lparr>name = ''U'', is_user = True, mes = ''bye''\<rparr>]\<rparr>]"

definition ex_env :: "nat \<Rightarrow> (db_fault, db_fault) block_env" where
  "ex_env i =
     (if i = 0
      then \<lparr>readFault = DbOk, apiResponse = Response 200 (JsonBody (Some ''sum one'')), writeFault = DbOk\<rparr>
      else \<lparr>readFault = DbOk, apiResponse = Response 200 (JsonBody None), writeFault = DbOk\<rparr>)"

definition ex_env_script :: "nat \<Rightarrow> (fs_fault, fs_write_fault) block_env" where
  "ex_env_script i =
     (if i = 0
      then \<lparr>readFault = FsOk, apiResponse = Response 200 (JsonBody (Some ''sum one'')), writeFault = WriteOk\<rparr>
      else \<lparr>readFault = FsOk, apiResponse = Response 200 (JsonBody None), writeFault = WriteOk\<rparr>)"

text \<open>An endpoint that answers every request with status 500.\<close>

definition ex_env_500 :: "nat \<Rightarrow> (db_fault, db_fault) block_env" where
  "ex_env_500 i = \<lparr>readFault = DbOk, apiResponse = Response 500 NotJson, writeFault = DbOk\<rparr>"

definition ex_env_500_script :: "nat \<Rightarrow> (fs_fault, fs_write_fault) block_env" where
  "ex_env_500_script i = \<lparr>readFault = FsOk, apiResponse = Response 500 NotJson, writeFault = WriteOk\<rparr>"

text \<open>A message without a speaker name.\<close>

definition ex_nameless :: message where
  "ex_nameless = \<lparr>name = [], is_user = True, mes = ''ab'', is_system = False\<rparr>"

text \<open>A named message, and a chat of three messages with text.\<close>

definition ex_named :: message where
  "ex_named = \<lparr>name = ''Al'', is_user = True, mes = ''abc'', is_system = False\<rparr>"

definition ex_chat :: "message list" where
  "ex_chat = [ex_short, ex_reply, ex_named]"

text \<open>An endpoint that answers with status 200 and a summary text that starts with \<^verbatim>\<open>[Error:\<close>.\<close>

definition ex_env_errtext :: "nat \<Rightarrow> (db_fault, db_fault) block_env" where
  "ex_env_errtext i =
     \<lparr>readFault = DbOk, apiResponse = Response 200 (JsonBody (Some ''[Error: from endpoint]'')),
      writeFault = DbOk\<rparr>"

section \<open>Properties of the hasher\<close>

lemma contentString_cong:
  assumes eq: "map (\<lambda>m. (is_user m, mes m)) b1 = map (\<lambda>m. (is_user m, mes m)) b2"
  shows "contentString b1 = contentString b2"
proof -
  define r where "r = (\<lambda>p :: bool \<times> string. (if fst p then ''U'' else ''C'') @ '':'' @ snd p)"
  have split: "map (\<lambda>msg. (if is_user msg then ''U'' else ''C'') @ '':'' @ mes msg) b =
        map r (map (\<lambda>m. (is_user m, mes m)) b)" for b :: "blockMsg list"
    by (simp add: r_def)
  show ?thesis
    unfolding contentString_def split eq ..
qed

text \<open>
  Claim C3. The block hash is a function of the ordered sequence of (isUser, text)
  pairs alone: two blocks whose messages agree pairwise on \<open>is_user\<close> and \<open>mes\<close> get the
  same hash, whatever their speaker names; as a function of its argument it returns the
  same hash on every call.
\<close>

theorem getBlockHash_pairs_only:
  assumes "map (\<lambda>m. (is_user m, mes m)) b1 = map (\<lambda>m. (is_user m, mes m)) b2"
  shows "getBlockHash digest b1 = getBlockHash digest b2"
  unfolding getBlockHash_def using contentString_cong [OF assms] by simp

theorem getBlockHash_pairs_only_witness:
  "\<forall>digest.
     getBlockHash digest [\<lparr>name = ''Alice'', is_user = True, mes = ''hi''\<rparr>,
                          \<lparr>name = ''Bot'', is_user = False, mes = ''hello''\<rparr>]
   = getBlockHash digest [\<lparr>name = ''Bob'', is_user = True, mes = ''hi''\<rparr>,
                          \<lparr>name = ''Assistant'', is_user = False, mes = ''hello''\<rparr>]"
  using getBlockHash_pairs_only
    [of "[\<lparr>name = ''Alice'', is_user = True, mes = ''hi''\<rparr>,
          \<lparr>name = ''Bot'', is_user = False, mes = ''hello''\<rparr>]"
        "[\<lparr>name = ''Bob'', is_user = True, mes = ''hi''\<rparr>,
          \<lparr>name = ''Assistant'', is_user = False, mes = ''hello''\<rparr>]"]
  by simp

section \<open>Properties of the segmenter\<close>

lemma messageLength_toBlockMsg [simp]: "messageLength (toBlockMsg m) = messageLength m"
  by (simp add: messageLength_def toBlockMsg_def)

lemma blockChars_simps [simp]:
  "blockChars [] = 0"
  "blockChars (ds @ [m]) = blockChars ds + messageLength m"
  "blockChars [m] = messageLength m"
  by (simp_all add: blockChars_def)

lemma withinBudget_single: "withinBudget blockSize [m]"
  by (auto simp: withinBudget_def)

lemma seg_inv_init: "seg_inv blockSize seg_init"
  by (simp add: seg_inv_def seg_init_def)

lemma seg_inv_generateBlocks_step:
  assumes "seg_inv blockSize st"
  shows "seg_inv blockSize (generateBlocks_step digest blockSize st m)"
proof (cases "is_system m \<or> messageLength m = 0")
  case True
  then show ?thesis using assms by (auto simp: generateBlocks_step_def)
next
  case keep: False
  show ?thesis
  proof (cases "currentBlock st \<noteq> [] \<and> currentBlockLength st + messageLength m > blockSize")
    case True
    then show ?thesis using assms keep
      by (auto simp: generateBlocks_step_def seg_inv_def pushBlock_def withinBudget_single)
  next
    case False
    have "withinBudget blockSize (currentBlock st @ [toBlockMsg m])"
    proof (cases "currentBlock st = []")
      case True
      then show ?thesis by (simp add: withinBudget_single)
    next
      case False
      with \<open>\<not> (currentBlock st \<noteq> [] \<and> currentBlockLength st + messageLength m > blockSize)\<close> assms
      show ?thesis by (simp add: withinBudget_def seg_inv_def)
    qed
    with False assms keep show ?thesis
      by (auto simp: generateBlocks_step_def seg_inv_def)
  qed
qed

lemma seg_inv_processHistory_close:
  assumes "seg_inv blockSize st"
  shows "seg_inv blockSize (processHistory_close digest blockSize st m)"
  using assms by (auto simp: processHistory_close_def seg_inv_def pushBlock_def)

lemma processHistory_close_room:
  "currentBlock (processHistory_close digest blockSize st m) = [] \<or>
   currentBlockLength (processHistory_close digest blockSize st m) + messageLength m \<le> blockSize"
  by (auto simp: processHistory_close_def)

lemma seg_inv_processHistory_add:
  assumes "seg_inv blockSize st"
    and "currentBlock st = [] \<or> currentBlockLength st + messageLength m \<le> blockSize"
  shows "seg_inv blockSize (processHistory_add st m)"
proof (cases "messageLength m > 0")
  case False
  then show ?thesis using assms by (simp add: processHistory_add_def)
next
  case True
  have "withinBudget blockSize (currentBlock st @ [toBlockMsg m])"
  proof (cases "currentBlock st = []")
    case True
    then show ?thesis by (simp add: withinBudget_single)
  next
    case False
    with assms show ?thesis by (simp add: withinBudget_def seg_inv_def)
  qed
  with True assms(1) show ?thesis
    by (simp add: processHistory_add_def seg_inv_def)
qed

lemma seg_inv_processHistory_step:
  assumes "seg_inv blockSize st"
  shows "seg_inv blockSize (processHistory_step digest blockSize st m)"
  unfolding processHistory_step_def
  by (rule seg_inv_processHistory_add [OF seg_inv_processHistory_close [OF assms] processHistory_close_room])

lemma foldl_preserves:
  assumes "\<And>st m. P st \<Longrightarrow> P (f st m)" and "P st"
  shows "P (foldl f st ms)"
  using assms(2) by (induction ms arbitrary: st) (simp_all add: assms(1))

lemma seg_inv_finish:
  assumes "seg_inv blockSize st" and "b \<in> set (seg_finish digest st)"
  shows "details b \<noteq> [] \<and> withinBudget blockSize (details b)"
  using assms by (auto simp: seg_finish_def seg_inv_def pushBlock_def split: if_splits)

lemma seg_messages_finish: "concat (map details (seg_finish digest st)) = seg_messages st"
  by (simp add: seg_finish_def seg_messages_def pushBlock_def)

lemma seg_messages_generateBlocks_step:
  "seg_messages (generateBlocks_step digest blockSize st m) =
   seg_messages st @ map toBlockMsg (filter (\<lambda>m. \<not> is_system m \<and> mes m \<noteq> []) [m])"
  by (simp add: generateBlocks_step_def seg_messages_def pushBlock_def messageLength_def)

lemma seg_messages_processHistory_step:
  "seg_messages (processHistory_step digest blockSize st m) =
   seg_messages st @ map toBlockMsg (filter (\<lambda>m. mes m \<noteq> []) [m])"
  by (simp add: processHistory_step_def processHistory_close_def processHistory_add_def
      seg_messages_def pushBlock_def messageLength_def)

lemma seg_messages_foldl:
  assumes "\<And>st m. seg_messages (f st m) = seg_messages st @ map toBlockMsg (filter keep [m])"
  shows "seg_messages (foldl f st ms) = seg_messages st @ map toBlockMsg (filter keep ms)"
proof (induction ms arbitrary: st)
  case Nil
  show ?case by simp
next
  case (Cons m ms)
  have "seg_messages (foldl f (f st m) ms) = seg_messages (f st m) @ map toBlockMsg (filter keep ms)"
    by (rule Cons.IH)
  then show ?case by (simp add: assms)
qed

text \<open>
  Claim C2. For every message list and every block size (in particular every positive
  one), in both files: no produced block is empty; every produced block either has summed
  text lengths within the block size or consists of a single message that is longer than
  the block size by itself; and the blocks' messages, concatenated in output order, are
  exactly the input messages that have text (in \<^verbatim>\<open>index.js\<close>: that have text and are not
  system messages), in their original order.
\<close>

theorem segmentation_budget:
  "(\<forall>b \<in> set (generateBlocks digest blockSize chatHistory).
      details b \<noteq> [] \<and> withinBudget blockSize (details b)) \<and>
   concat (map details (generateBlocks digest blockSize chatHistory)) =
     map toBlockMsg (filter (\<lambda>m. \<not> is_system m \<and> mes m \<noteq> []) chatHistory) \<and>
   (\<forall>b \<in> set (processHistory_blocks digest blockSize chatHistory).
      details b \<noteq> [] \<and> withinBudget blockSize (details b)) \<and>
   concat (map details (processHistory_blocks digest blockSize chatHistory)) =
     map toBlockMsg (filter (\<lambda>m. mes m \<noteq> []) chatHistory)"
proof -
  have inv1: "seg_inv blockSize (foldl (generateBlocks_step digest blockSize) seg_init chatHistory)"
    by (rule foldl_preserves [where P = "seg_inv blockSize"])
       (simp_all add: seg_inv_generateBlocks_step seg_inv_init)
  have inv2: "seg_inv blockSize (foldl (processHistory_step digest blockSize) seg_init chatHistory)"
    by (rule foldl_preserves [where P = "seg_inv blockSize"])
       (simp_all add: seg_inv_processHistory_step seg_inv_init)
  have init: "seg_messages seg_init = []"
    by (simp add: seg_messages_def seg_init_def)
  have c1: "concat (map details (generateBlocks digest blockSize chatHistory)) =
     map toBlockMsg (filter (\<lambda>m. \<not> is_system m \<and> mes m \<noteq> []) chatHistory)"
    unfolding generateBlocks_def seg_messages_finish
    using seg_messages_foldl [of "generateBlocks_step digest blockSize"
        "\<lambda>m. \<not> is_system m \<and> mes m \<noteq> []" seg_init chatHistory, OF seg_messages_generateBlocks_step]
    by (simp add: init)
  have c2: "concat (map details (processHistory_blocks digest blockSize chatHistory)) =
     map toBlockMsg (filter (\<lambda>m. mes m \<noteq> []) chatHistory)"
    unfolding processHistory_blocks_def seg_messages_finish
    using seg_messages_foldl [of "processHistory_step digest blockSize"
        "\<lambda>m. mes m \<noteq> []" seg_init chatHistory, OF seg_messages_processHistory_step]
    by (simp add: init)
  show ?thesis
    using seg_inv_finish [OF inv1] seg_inv_finish [OF inv2] c1 c2
    unfolding generateBlocks_def processHistory_blocks_def by blast
qed

theorem segmentation_budget_witness:
  "\<lparr>hash = ''U:hi|C:hey'',
     details = [\<lparr>name = ''U'', is_user = True, mes = ''hi''\<rparr>,
                \<lparr>name = ''A'', is_user = False, mes = ''hey''\<rparr>]\<rparr>
     \<in> set (generateBlocks id 6 ex_history) \<and>
   withinBudget 6 [\<lparr>name = ''U'', is_user = True, mes = ''hi''\<rparr>,
                   \<lparr>name = ''A'', is_user = False, mes = ''hey''\<rparr>] \<and>
   \<lparr>hash = ''U:xxxxxxxxxx'',
     details = [\<lparr>name = ''U'', is_user = True, mes = ''xxxxxxxxxx''\<rparr>]\<rparr>
     \<in> set (generateBlocks id 6 ex_history) \<and>
   withinBudget 6 [\<lparr>name = ''U'', is_user = True, mes = ''xxxxxxxxxx''\<rparr>] \<and>
   \<lparr>hash = ''C:hey'', details = [\<lparr>name = ''A'', is_user = False, mes = ''hey''\<rparr>]\<rparr>
     \<in> set (processHistory_blocks id 6 ex_history) \<and>
   withinBudget 6 [\<lparr>name = ''A'', is_user = False, mes = ''hey''\<rparr>] \<and>
   concat (map details (generateBlocks id 6 ex_history)) =
     [\<lparr>name = ''U'', is_user = True, mes = ''hi''\<rparr>,
      \<lparr>name = ''A'', is_user = False, mes = ''hey''\<rparr>,
      \<lparr>name = ''U'', is_user = True, mes = ''xxxxxxxxxx''\<rparr>]"
proof -
  have g: "generateBlocks id 6 ex_history =
      [\<lparr>hash = ''U:hi|C:hey'',
        details = [\<lparr>name = ''U'', is_user = True, mes = ''hi''\<rparr>,
                   \<lparr>name = ''A'', is_user = False, mes = ''hey''\<rparr>]\<rparr>,
       \<lparr>hash = ''U:xxxxxxxxxx'',
        details = [\<lparr>name = ''U'', is_user = True, mes = ''xxxxxxxxxx''\<rparr>]\<rparr>]"
    by (simp add: ex_history_def generateBlocks_def generateBlocks_step_def seg_init_def
        seg_finish_def pushBlock_def getBlockHash_def contentString_def messageLength_def
        toBlockMsg_def)
  have p: "processHistory_blocks id 6 ex_history =
      [\<lparr>hash = ''U:hi|C:note'',
        details = [\<lparr>name = ''U'', is_user = True, mes = ''hi''\<rparr>,
                   \<lparr>name = ''sys'', is_user = False, mes = ''note''\<rparr>]\<rparr>,
       \<lparr>hash = ''C:hey'', details = [\<lparr>name = ''A'', is_user = False, mes = ''hey''\<rparr>]\<rparr>,
       \<lparr>hash = ''U:xxxxxxxxxx'',
        details = [\<lparr>name = ''U'', is_user = True, mes = ''xxxxxxxxxx''\<rparr>]\<rparr>]"
    by (simp add: ex_history_def processHistory_blocks_def processHistory_step_def
        processHistory_close_def processHistory_add_def seg_init_def
        seg_finish_def pushBlock_def getBlockHash_def contentString_def messageLength_def
        toBlockMsg_def)
  show ?thesis
    using segmentation_budget [of id 6 ex_history]
    by (simp add: g p)
qed

text \<open>
  Claim C5 (as amended). In \<^verbatim>\<open>generateBlocks\<close> (index.js) a message that is not skipped
  closes the current block exactly when the block is non-empty and
  \<open>currentBlockLength + messageLength > blockSize\<close>; nothing else closes a block there. In
  \<^verbatim>\<open>processHistoryForSummarization\<close> (script.js) a message closes the current block exactly
  when the block is non-empty and either that sum exceeds the block size or the block
  already holds more than 100 messages. A closed block is emitted with its hash, and the
  new block starts with the pending message (in script.js: when the message has text).
\<close>

theorem closing_rule:
  "(blocks (generateBlocks_step digest blockSize st m) \<noteq> blocks st \<longleftrightarrow>
      \<not> is_system m \<and> mes m \<noteq> [] \<and>
      currentBlock st \<noteq> [] \<and> currentBlockLength st + messageLength m > blockSize) \<and>
   (blocks (generateBlocks_step digest blockSize st m) \<noteq> blocks st \<longrightarrow>
      generateBlocks_step digest blockSize st m =
        \<lparr>blocks = blocks st @ [\<lparr>hash = getBlockHash digest (currentBlock st),
                                  details = currentBlock st\<rparr>],
         currentBlock = [toBlockMsg m],
         currentBlockLength = messageLength m\<rparr>) \<and>
   (blocks (processHistory_step digest blockSize st m) \<noteq> blocks st \<longleftrightarrow>
      currentBlock st \<noteq> [] \<and>
      (currentBlockLength st + messageLength m > blockSize \<or> length (currentBlock st) > 100)) \<and>
   (blocks (processHistory_step digest blockSize st m) \<noteq> blocks st \<longrightarrow>
      processHistory_step digest blockSize st m =
        \<lparr>blocks = blocks st @ [\<lparr>hash = getBlockHash digest (currentBlock st),
                                  details = currentBlock st\<rparr>],
         currentBlock = (if mes m = [] then [] else [toBlockMsg m]),
         currentBlockLength = messageLength m\<rparr>)"
proof -
  have len0: "messageLength m = 0 \<longleftrightarrow> mes m = []"
    by (simp add: messageLength_def)
  have pos: "0 < messageLength m \<longleftrightarrow> mes m \<noteq> []"
    by (simp add: messageLength_def)
  have a: "blocks (generateBlocks_step digest blockSize st m) \<noteq> blocks st \<longleftrightarrow>
      \<not> is_system m \<and> mes m \<noteq> [] \<and>
      currentBlock st \<noteq> [] \<and> currentBlockLength st + messageLength m > blockSize"
    by (simp add: generateBlocks_step_def pushBlock_def len0)
  have b: "blocks (generateBlocks_step digest blockSize st m) \<noteq> blocks st \<longrightarrow>
      generateBlocks_step digest blockSize st m =
        \<lparr>blocks = blocks st @ [\<lparr>hash = getBlockHash digest (currentBlock st),
                                  details = currentBlock st\<rparr>],
         currentBlock = [toBlockMsg m],
         currentBlockLength = messageLength m\<rparr>"
    by (simp add: generateBlocks_step_def pushBlock_def len0)
  have c: "blocks (processHistory_step digest blockSize st m) \<noteq> blocks st \<longleftrightarrow>
      currentBlock st \<noteq> [] \<and>
      (currentBlockLength st + messageLength m > blockSize \<or> length (currentBlock st) > 100)"
    by (simp add: processHistory_step_def processHistory_close_def processHistory_add_def
        pushBlock_def)
  have d: "blocks (processHistory_step digest blockSize st m) \<noteq> blocks st \<longrightarrow>
      processHistory_step digest blockSize st m =
        \<lparr>blocks = blocks st @ [\<lparr>hash = getBlockHash digest (currentBlock st),
                                  details = currentBlock st\<rparr>],
         currentBlock = (if mes m = [] then [] else [toBlockMsg m]),
         currentBlockLength = messageLength m\<rparr>"
    by (auto simp: processHistory_step_def processHistory_close_def processHistory_add_def
        pushBlock_def pos len0)
  from a b c d show ?thesis by blast
qed

theorem closing_rule_witness:
  "blocks (generateBlocks_step id 4 ex_seg_state ex_reply) \<noteq> blocks ex_seg_state \<and>
   generateBlocks_step id 4 ex_seg_state ex_reply =
     \<lparr>blocks = [\<lparr>hash = ''U:hi'',
                      details = [\<lparr>name = ''U'', is_user = True, mes = ''hi''\<rparr>]\<rparr>],
      currentBlock = [\<lparr>name = ''A'', is_user = False, mes = ''hey''\<rparr>],
      currentBlockLength = 3\<rparr> \<and>
   blocks (processHistory_step id 4 ex_seg_state ex_reply) \<noteq> blocks ex_seg_state \<and>
   processHistory_step id 4 ex_seg_state ex_reply =
     \<lparr>blocks = [\<lparr>hash = ''U:hi'',
                      details = [\<lparr>name = ''U'', is_user = True, mes = ''hi''\<rparr>]\<rparr>],
      currentBlock = [\<lparr>name = ''A'', is_user = False, mes = ''hey''\<rparr>],
      currentBlockLength = 3\<rparr>"
  using closing_rule [of id 4 ex_seg_state ex_reply]
  by (simp add: ex_seg_state_def ex_reply_def messageLength_def toBlockMsg_def
      getBlockHash_def contentString_def generateBlocks_step_def processHistory_step_def
      processHistory_close_def processHistory_add_def pushBlock_def)

text \<open>
  The claim as stated fails on \<^verbatim>\<open>script.js\<close>: after 101 one-character messages the current
  block is non-empty and one more character keeps it far below the block size 1000, yet
  the next message closes the block. 102 such messages give two blocks there, and one
  block in \<^verbatim>\<open>index.js\<close>.
\<close>

theorem closing_rule_counterexample:
  "blocks (foldl (processHistory_step id 1000) seg_init (replicate 101 ex_short)) = [] \<and>
   length (currentBlock (foldl (processHistory_step id 1000) seg_init (replicate 101 ex_short))) = 101 \<and>
   currentBlockLength (foldl (processHistory_step id 1000) seg_init (replicate 101 ex_short))
     + messageLength ex_short = 102 \<and>
   length (blocks (processHistory_step id 1000
     (foldl (processHistory_step id 1000) seg_init (replicate 101 ex_short)) ex_short)) = 1 \<and>
   map (length \<circ> details) (processHistory_blocks id 1000 (replicate 102 ex_short)) = [101, 1] \<and>
   map (length \<circ> details) (generateBlocks id 1000 (replicate 102 ex_short)) = [102]"
  by code_simp


section \<open>Properties of the cache\<close>

lemma blockCache_after_save_index:
  "blockCache (snd (saveSummaryToCache_index fault h s st)) h = Some s"
  by (cases fault) (simp_all add: saveSummaryToCache_index_def setItemInDB_def)

lemma blockCache_after_save_script:
  "blockCache (snd (saveSummaryToCache_script fault h s st)) h = Some s"
  by (cases fault) (simp_all add: saveSummaryToCache_script_def)

lemma get_index_hit:
  "blockCache st h = Some v \<Longrightarrow> getSummaryFromCache_index fault h st = (Inr (Some v), st)"
  by (simp add: getSummaryFromCache_index_def)

lemma get_script_hit:
  "blockCache st h = Some v \<Longrightarrow> getSummaryFromCache_script fault h st = (Some v, st)"
  by (simp add: getSummaryFromCache_script_def)

text \<open>
  Claim C4. In both files, for every hash and every summary (empty or not), whatever the
  durable layer does: \<open>get\<close> after \<open>put\<close> returns the summary put. \<open>get\<close> answers from the
  in-memory layer when the entry is there, without consulting the durable layer and
  without changing the state; on an in-memory miss it asks the durable layer; on a
  durable hit it stores the retrieved summary in the in-memory layer and returns it, so
  the entry is an in-memory entry afterwards and the next \<open>get\<close> no longer depends on the
  durable layer. A summary put successfully is also found after the in-memory layer is
  lost (a restart).
\<close>

theorem cache_put_get:
  "fst (getSummaryFromCache_index f2 h (snd (saveSummaryToCache_index f1 h s st))) = Inr (Some s) \<and>
   fst (getSummaryFromCache_script g2 h (snd (saveSummaryToCache_script g1 h s st))) = Some s \<and>
   (blockCache st h = Some v \<longrightarrow>
      getSummaryFromCache_index f h st = (Inr (Some v), st) \<and>
      getSummaryFromCache_script g h st = (Some v, st)) \<and>
   (blockCache st h = None \<longrightarrow>
      getSummaryFromCache_index DbOk h st =
        (Inr (durable st h),
         case durable st h of None \<Rightarrow> st | Some d \<Rightarrow> st\<lparr>blockCache := (blockCache st)(h \<mapsto> d)\<rparr>) \<and>
      getSummaryFromCache_script FsOk h st =
        (durable st h,
         case durable st h of None \<Rightarrow> st | Some d \<Rightarrow> st\<lparr>blockCache := (blockCache st)(h \<mapsto> d)\<rparr>)) \<and>
   (blockCache st h = None \<and> durable st h = Some v \<longrightarrow>
      blockCache (snd (getSummaryFromCache_index DbOk h st)) h = Some v \<and>
      fst (getSummaryFromCache_index f h (snd (getSummaryFromCache_index DbOk h st))) = Inr (Some v) \<and>
      blockCache (snd (getSummaryFromCache_script FsOk h st)) h = Some v \<and>
      fst (getSummaryFromCache_script g h (snd (getSummaryFromCache_script FsOk h st))) = Some v) \<and>
   fst (getSummaryFromCache_index DbOk h
          ((snd (saveSummaryToCache_index DbOk h s st))\<lparr>blockCache := Map.empty\<rparr>)) = Inr (Some s) \<and>
   fst (getSummaryFromCache_script FsOk h
          ((snd (saveSummaryToCache_script WriteOk h s st))\<lparr>blockCache := Map.empty\<rparr>)) = Some s"
proof -
  have a: "fst (getSummaryFromCache_index f2 h (snd (saveSummaryToCache_index f1 h s st))) = Inr (Some s)"
    by (simp add: get_index_hit [OF blockCache_after_save_index])
  have b: "fst (getSummaryFromCache_script g2 h (snd (saveSummaryToCache_script g1 h s st))) = Some s"
    by (simp add: get_script_hit [OF blockCache_after_save_script])
  have c: "blockCache st h = Some v \<longrightarrow>
      getSummaryFromCache_index f h st = (Inr (Some v), st) \<and>
      getSummaryFromCache_script g h st = (Some v, st)"
    by (simp add: get_index_hit get_script_hit)
  have d: "blockCache st h = None \<longrightarrow>
      getSummaryFromCache_index DbOk h st =
        (Inr (durable st h),
         case durable st h of None \<Rightarrow> st | Some d \<Rightarrow> st\<lparr>blockCache := (blockCache st)(h \<mapsto> d)\<rparr>) \<and>
      getSummaryFromCache_script FsOk h st =
        (durable st h,
         case durable st h of None \<Rightarrow> st | Some d \<Rightarrow> st\<lparr>blockCache := (blockCache st)(h \<mapsto> d)\<rparr>)"
    by (simp add: getSummaryFromCache_index_def getSummaryFromCache_script_def getItemFromDB_def
        split: option.splits)
  have e: "blockCache st h = None \<and> durable st h = Some v \<longrightarrow>
      blockCache (snd (getSummaryFromCache_index DbOk h st)) h = Some v \<and>
      fst (getSummaryFromCache_index f h (snd (getSummaryFromCache_index DbOk h st))) = Inr (Some v) \<and>
      blockCache (snd (getSummaryFromCache_script FsOk h st)) h = Some v \<and>
      fst (getSummaryFromCache_script g h (snd (getSummaryFromCache_script FsOk h st))) = Some v"
    by (simp add: getSummaryFromCache_index_def getSummaryFromCache_script_def getItemFromDB_def)
  have f: "fst (getSummaryFromCache_index DbOk h
          ((snd (saveSummaryToCache_index DbOk h s st))\<lparr>blockCache := Map.empty\<rparr>)) = Inr (Some s)"
    by (simp add: getSummaryFromCache_index_def saveSummaryToCache_index_def setItemInDB_def
        getItemFromDB_def)
  have g: "fst (getSummaryFromCache_script FsOk h
          ((snd (saveSummaryToCache_script WriteOk h s st))\<lparr>blockCache := Map.empty\<rparr>)) = Some s"
    by (simp add: getSummaryFromCache_script_def saveSummaryToCache_script_def)
  from a b c d e f g show ?thesis by blast
qed

theorem cache_put_get_witness:
  "blockCache ex_cache ''h1'' = None \<and> durable ex_cache ''h1'' = Some ''old summary'' \<and>
   fst (getSummaryFromCache_index DbOk ''h1'' ex_cache) = Inr (Some ''old summary'') \<and>
   blockCache (snd (getSummaryFromCache_index DbOk ''h1'' ex_cache)) ''h1'' = Some ''old summary'' \<and>
   fst (getSummaryFromCache_index DbRequestFailed ''h1''
          (snd (getSummaryFromCache_index DbOk ''h1'' ex_cache))) = Inr (Some ''old summary'') \<and>
   fst (getSummaryFromCache_script FsFailed ''h1''
          (snd (getSummaryFromCache_script FsOk ''h1'' ex_cache))) = Some ''old summary'' \<and>
   fst (getSummaryFromCache_index DbOpenFailed ''h2''
          (snd (saveSummaryToCache_index DbOpenFailed ''h2'' ''new'' ex_cache))) = Inr (Some ''new'')"
  using cache_put_get [of DbOpenFailed "''h2''" DbOpenFailed "''new''" ex_cache]
    cache_put_get [of _ "''h1''" _ _ ex_cache _ _ "''old summary''" DbRequestFailed FsFailed]
  by (simp add: ex_cache_def getSummaryFromCache_index_def getSummaryFromCache_script_def
      getItemFromDB_def saveSummaryToCache_index_def setItemInDB_def)

text \<open>
  Claim C7 (as amended). In both files \<open>put\<close> writes the in-memory layer first and
  unconditionally, then attempts the durable write, and the in-memory entry stays whatever
  the durable layer does (no rollback). In \<^verbatim>\<open>index.js\<close> a failed write request is
  reported to the caller of \<open>put\<close>: the promise \<open>put\<close> returns is rejected. In \<^verbatim>\<open>script.js\<close>
  a failed write is caught and logged and is not reported: \<open>put\<close> returns \<^verbatim>\<open>undefined\<close> as
  it does on success.
\<close>

theorem cache_put_no_rollback:
  "blockCache (snd (saveSummaryToCache_index fault h s st)) h = Some s \<and>
   blockCache (snd (saveSummaryToCache_script fault' h s st)) h = Some s \<and>
   saveSummaryToCache_index DbOk h s st =
     (Inr (), st\<lparr>blockCache := (blockCache st)(h \<mapsto> s), durable := (durable st)(h \<mapsto> s)\<rparr>) \<and>
   fst (saveSummaryToCache_index DbRequestFailed h s st) = Inl DbRequestError \<and>
   saveSummaryToCache_script WriteOk h s st =
     ((), st\<lparr>blockCache := (blockCache st)(h \<mapsto> s), durable := (durable st)(h \<mapsto> s)\<rparr>) \<and>
   fst (saveSummaryToCache_script fault' h s st) = fst (saveSummaryToCache_script WriteOk h s st)"
proof -
  have mem: "blockCache (snd (saveSummaryToCache_index fault h s st)) h = Some s \<and>
      blockCache (snd (saveSummaryToCache_script fault' h s st)) h = Some s"
    by (simp add: blockCache_after_save_index blockCache_after_save_script)
  have idx: "saveSummaryToCache_index DbOk h s st =
       (Inr (), st\<lparr>blockCache := (blockCache st)(h \<mapsto> s), durable := (durable st)(h \<mapsto> s)\<rparr>) \<and>
     fst (saveSummaryToCache_index DbRequestFailed h s st) = Inl DbRequestError"
    by (simp add: saveSummaryToCache_index_def setItemInDB_def)
  have scr: "saveSummaryToCache_script WriteOk h s st =
       ((), st\<lparr>blockCache := (blockCache st)(h \<mapsto> s), durable := (durable st)(h \<mapsto> s)\<rparr>)"
    by (simp add: saveSummaryToCache_script_def)
  have res: "fst (saveSummaryToCache_script fault' h s st) = fst (saveSummaryToCache_script WriteOk h s st)"
    by simp
  from mem idx scr res show ?thesis by blast
qed

text \<open>
  The claim as stated fails on \<^verbatim>\<open>script.js\<close>: when \<^verbatim>\<open>fs.writeFile\<close> throws, \<open>put\<close> returns what
  it returns on success, while the durable layer does not hold the entry and the
  in-memory layer does.
\<close>

theorem cache_put_failure_counterexample:
  "fst (saveSummaryToCache_script WriteFailedUntouched ''h2'' ''new'' ex_cache) =
     fst (saveSummaryToCache_script WriteOk ''h2'' ''new'' ex_cache) \<and>
   durable (snd (saveSummaryToCache_script WriteFailedUntouched ''h2'' ''new'' ex_cache)) ''h2'' = None \<and>
   blockCache (snd (saveSummaryToCache_script WriteFailedUntouched ''h2'' ''new'' ex_cache)) ''h2'' = Some ''new'' \<and>
   fst (saveSummaryToCache_script WriteFailedTruncated ''h2'' ''new'' ex_cache) =
     fst (saveSummaryToCache_script WriteOk ''h2'' ''new'' ex_cache) \<and>
   durable (snd (saveSummaryToCache_script WriteFailedTruncated ''h2'' ''new'' ex_cache)) ''h2'' = None \<and>
   blockCache (snd (saveSummaryToCache_script WriteFailedTruncated ''h2'' ''new'' ex_cache)) ''h2'' = Some ''new''"
  by (simp add: saveSummaryToCache_script_def ex_cache_def)

text \<open>
  Claim C9. The string fed to the digest is not injective on message sequences: the
  single user message \<open>''a|U:b''\<close> and the two user messages \<open>''a''\<close>, \<open>''b''\<close> are different
  blocks with the same content string, hence the same hash under every digest, and a
  summary cached for one is returned for the other.
\<close>

theorem contentString_not_injective:
  "[\<lparr>name = n, is_user = True, mes = ''a|U:b''\<rparr>] \<noteq>
     [\<lparr>name = n1, is_user = True, mes = ''a''\<rparr>, \<lparr>name = n2, is_user = True, mes = ''b''\<rparr>] \<and>
   contentString [\<lparr>name = n, is_user = True, mes = ''a|U:b''\<rparr>] =
     contentString [\<lparr>name = n1, is_user = True, mes = ''a''\<rparr>, \<lparr>name = n2, is_user = True, mes = ''b''\<rparr>] \<and>
   getBlockHash digest [\<lparr>name = n, is_user = True, mes = ''a|U:b''\<rparr>] =
     getBlockHash digest [\<lparr>name = n1, is_user = True, mes = ''a''\<rparr>, \<lparr>name = n2, is_user = True, mes = ''b''\<rparr>] \<and>
   fst (getSummaryFromCache_index f2
          (getBlockHash digest [\<lparr>name = n1, is_user = True, mes = ''a''\<rparr>, \<lparr>name = n2, is_user = True, mes = ''b''\<rparr>])
          (snd (saveSummaryToCache_index f1
                  (getBlockHash digest [\<lparr>name = n, is_user = True, mes = ''a|U:b''\<rparr>]) s st))) = Inr (Some s) \<and>
   fst (getSummaryFromCache_script g2
          (getBlockHash digest [\<lparr>name = n1, is_user = True, mes = ''a''\<rparr>, \<lparr>name = n2, is_user = True, mes = ''b''\<rparr>])
          (snd (saveSummaryToCache_script g1
                  (getBlockHash digest [\<lparr>name = n, is_user = True, mes = ''a|U:b''\<rparr>]) s st))) = Some s"
proof -
  have cs: "contentString [\<lparr>name = n, is_user = True, mes = ''a|U:b''\<rparr>] =
     contentString [\<lparr>name = n1, is_user = True, mes = ''a''\<rparr>, \<lparr>name = n2, is_user = True, mes = ''b''\<rparr>]"
    by (simp add: contentString_def)
  have h: "getBlockHash digest [\<lparr>name = n, is_user = True, mes = ''a|U:b''\<rparr>] =
     getBlockHash digest [\<lparr>name = n1, is_user = True, mes = ''a''\<rparr>, \<lparr>name = n2, is_user = True, mes = ''b''\<rparr>]"
    by (simp add: getBlockHash_def cs)
  show ?thesis
    unfolding h [symmetric]
    by (simp add: cs get_index_hit [OF blockCache_after_save_index]
        get_script_hit [OF blockCache_after_save_script])
qed

section \<open>Properties of the orchestrator\<close>

lemma summarizeAllBlocks_loop_snoc:
  "summarizeAllBlocks_loop apiUrl env i (bs @ [b]) sums err st =
     (case summarizeAllBlocks_loop apiUrl env i bs sums err st of
        (Inl e, st1) \<Rightarrow> (Inl e, st1)
      | (Inr (sums1, err1), st1) \<Rightarrow>
          (case summarizeAllBlocks_body apiUrl (env (i + length bs)) (i + length bs) b err1 st1 of
             (Inl e, st2) \<Rightarrow> (Inl e, st2)
           | (Inr (s, err2), st2) \<Rightarrow> (Inr (sums1 @ [s], err2), st2)))"
  by (induction bs arbitrary: i sums err st) (auto split: prod.splits sum.splits)

lemma processHistory_summaries_snoc:
  "processHistory_summaries apiUrl env i (bs @ [b]) sums st =
     (case processHistory_summaries apiUrl env i bs sums st of
        (sums1, st1) \<Rightarrow>
          (case processHistory_body apiUrl (env (i + length bs)) (i + length bs) b st1 of
             (s, st2) \<Rightarrow> (sums1 @ [s], st2)))"
  by (induction bs arbitrary: i sums st) (auto split: prod.splits)

lemma summarizeAllBlocks_body_ok:
  assumes "readFault e \<noteq> DbRequestFailed" and "writeFault e \<noteq> DbRequestFailed"
  shows "\<exists>summary st1.
     summarizeAllBlocks_body apiUrl e i b err st = (Inr (summary, err \<or> blockFailed apiUrl e b st), st1) \<and>
     blockSummaryOk_index apiUrl e i b st summary"
proof (cases "blockCache st (hash b)")
  case (Some v)
  then show ?thesis
    by (simp add: summarizeAllBlocks_body_def getSummaryFromCache_index_def blockFailed_def
        blockSummaryOk_index_def)
next
  case None
  show ?thesis
  proof (cases "getItemFromDB (readFault e) (hash b) st")
    case (Inl x)
    with assms(1) show ?thesis
      by (cases "readFault e") (simp_all add: getItemFromDB_def)
  next
    case (Inr found)
    show ?thesis
    proof (cases found)
      case (Some v)
      with None Inr show ?thesis
        by (simp add: summarizeAllBlocks_body_def getSummaryFromCache_index_def blockFailed_def
            blockSummaryOk_index_def)
    next
      case miss: None
      show ?thesis
      proof (cases "callSummarizationApi_index apiUrl (apiResponse e)")
        case None' : None
        with None Inr miss show ?thesis
          by (simp add: summarizeAllBlocks_body_def getSummaryFromCache_index_def blockFailed_def
              blockSummaryOk_index_def)
      next
        case (Some s)
        with None Inr miss assms(2) show ?thesis
          by (cases "writeFault e")
             (simp_all add: summarizeAllBlocks_body_def getSummaryFromCache_index_def blockFailed_def
              blockSummaryOk_index_def saveSummaryToCache_index_def setItemInDB_def)
      qed
    qed
  qed
qed

lemma processHistory_body_ok:
  "\<exists>summary st1. processHistory_body apiUrl e i b st = (summary, st1) \<and>
     blockSummaryOk_script apiUrl e i b st summary"
  by (auto simp: processHistory_body_def blockSummaryOk_script_def split: prod.splits option.splits)

lemma summarizeAllBlocks_run:
  assumes "\<forall>i<length bs. readFault (env i) \<noteq> DbRequestFailed \<and> writeFault (env i) \<noteq> DbRequestFailed"
  shows "\<exists>summaries hasError st'.
     summarizeAllBlocks apiUrl env bs st = (Inr (summaries, hasError), st') \<and>
     length summaries = length bs \<and>
     (hasError \<longleftrightarrow>
        (\<exists>i<length bs. blockFailed apiUrl (env i) (bs ! i) (cacheBefore_index apiUrl env bs st i))) \<and>
     (\<forall>i<length bs. blockSummaryOk_index apiUrl (env i) i (bs ! i)
        (cacheBefore_index apiUrl env bs st i) (summaries ! i))"
  using assms
proof (induction bs rule: rev_induct)
  case Nil
  show ?case by (auto simp: summarizeAllBlocks_def)
next
  case (snoc b bs)
  from snoc.prems have pre:
    "\<forall>i<length bs. readFault (env i) \<noteq> DbRequestFailed \<and> writeFault (env i) \<noteq> DbRequestFailed"
    by simp
  from snoc.prems have last:
    "readFault (env (length bs)) \<noteq> DbRequestFailed" "writeFault (env (length bs)) \<noteq> DbRequestFailed"
    by simp_all
  from snoc.IH [OF pre] obtain summaries hasError st' where
    run: "summarizeAllBlocks apiUrl env bs st = (Inr (summaries, hasError), st')" and
    len: "length summaries = length bs" and
    flag: "hasError \<longleftrightarrow>
        (\<exists>i<length bs. blockFailed apiUrl (env i) (bs ! i) (cacheBefore_index apiUrl env bs st i))" and
    each: "\<forall>i<length bs. blockSummaryOk_index apiUrl (env i) i (bs ! i)
        (cacheBefore_index apiUrl env bs st i) (summaries ! i)"
    by blast
  from summarizeAllBlocks_body_ok [OF last] obtain summary st1 where
    body: "summarizeAllBlocks_body apiUrl (env (length bs)) (length bs) b hasError st' =
      (Inr (summary, hasError \<or> blockFailed apiUrl (env (length bs)) b st'), st1)" and
    ok: "blockSummaryOk_index apiUrl (env (length bs)) (length bs) b st' summary"
    by blast
  let ?failed = "blockFailed apiUrl (env (length bs)) b st'"
  have run': "summarizeAllBlocks apiUrl env (bs @ [b]) st =
      (Inr (summaries @ [summary], hasError \<or> ?failed), st1)"
    using run body by (simp add: summarizeAllBlocks_def summarizeAllBlocks_loop_snoc)
  have old: "cacheBefore_index apiUrl env (bs @ [b]) st i = cacheBefore_index apiUrl env bs st i"
    if "i \<le> length bs" for i
    using that by (simp add: cacheBefore_index_def)
  have new: "cacheBefore_index apiUrl env (bs @ [b]) st (length bs) = st'"
    using run by (simp add: cacheBefore_index_def)
  have flag': "(hasError \<or> ?failed) \<longleftrightarrow>
      (\<exists>i<length (bs @ [b]). blockFailed apiUrl (env i) ((bs @ [b]) ! i)
         (cacheBefore_index apiUrl env (bs @ [b]) st i))"
  proof -
    have "(\<exists>i<length (bs @ [b]). blockFailed apiUrl (env i) ((bs @ [b]) ! i)
         (cacheBefore_index apiUrl env (bs @ [b]) st i)) \<longleftrightarrow>
      (\<exists>i<length bs. blockFailed apiUrl (env i) ((bs @ [b]) ! i)
         (cacheBefore_index apiUrl env (bs @ [b]) st i)) \<or>
      blockFailed apiUrl (env (length bs)) ((bs @ [b]) ! length bs)
         (cacheBefore_index apiUrl env (bs @ [b]) st (length bs))"
      by (auto simp: less_Suc_eq)
    also have "\<dots> \<longleftrightarrow> hasError \<or> ?failed"
      by (simp add: flag new old nth_append cong: conj_cong)
    finally show ?thesis by simp
  qed
  have each': "\<forall>i<length (bs @ [b]). blockSummaryOk_index apiUrl (env i) i ((bs @ [b]) ! i)
        (cacheBefore_index apiUrl env (bs @ [b]) st i) ((summaries @ [summary]) ! i)"
  proof (intro allI impI)
    fix i assume "i < length (bs @ [b])"
    then consider "i < length bs" | "i = length bs" by fastforce
    then show "blockSummaryOk_index apiUrl (env i) i ((bs @ [b]) ! i)
        (cacheBefore_index apiUrl env (bs @ [b]) st i) ((summaries @ [summary]) ! i)"
    proof cases
      case 1
      with each len show ?thesis by (simp add: nth_append old)
    next
      case 2
      with ok len show ?thesis by (simp add: nth_append new)
    qed
  qed
  from run' len flag' each' show ?case by simp
qed

lemma processHistory_summaries_run:
  "\<exists>summaries st'.
     processHistory_summaries apiUrl env 0 bs [] st = (summaries, st') \<and>
     length summaries = length bs \<and>
     (\<forall>i<length bs. blockSummaryOk_script apiUrl (env i) i (bs ! i)
        (cacheBefore_script apiUrl env bs st i) (summaries ! i))"
proof (induction bs rule: rev_induct)
  case Nil
  show ?case by simp
next
  case (snoc b bs)
  then obtain summaries st' where
    run: "processHistory_summaries apiUrl env 0 bs [] st = (summaries, st')" and
    len: "length summaries = length bs" and
    each: "\<forall>i<length bs. blockSummaryOk_script apiUrl (env i) i (bs ! i)
        (cacheBefore_script apiUrl env bs st i) (summaries ! i)"
    by blast
  from processHistory_body_ok obtain summary st1 where
    body: "processHistory_body apiUrl (env (length bs)) (length bs) b st' = (summary, st1)" and
    ok: "blockSummaryOk_script apiUrl (env (length bs)) (length bs) b st' summary"
    by blast
  have run': "processHistory_summaries apiUrl env 0 (bs @ [b]) [] st = (summaries @ [summary], st1)"
    using run body by (simp add: processHistory_summaries_snoc)
  have old: "cacheBefore_script apiUrl env (bs @ [b]) st i = cacheBefore_script apiUrl env bs st i"
    if "i \<le> length bs" for i
    using that by (simp add: cacheBefore_script_def)
  have new: "cacheBefore_script apiUrl env (bs @ [b]) st (length bs) = st'"
    using run by (simp add: cacheBefore_script_def)
  have each': "\<forall>i<length (bs @ [b]). blockSummaryOk_script apiUrl (env i) i ((bs @ [b]) ! i)
        (cacheBefore_script apiUrl env (bs @ [b]) st i) ((summaries @ [summary]) ! i)"
  proof (intro allI impI)
    fix i assume "i < length (bs @ [b])"
    then consider "i < length bs" | "i = length bs" by fastforce
    then show "blockSummaryOk_script apiUrl (env i) i ((bs @ [b]) ! i)
        (cacheBefore_script apiUrl env (bs @ [b]) st i) ((summaries @ [summary]) ! i)"
    proof cases
      case 1
      with each len show ?thesis by (simp add: nth_append old)
    next
      case 2
      with ok len show ?thesis by (simp add: nth_append new)
    qed
  qed
  from run' len each' show ?case by simp
qed












lemma callSummarizationApi_index_results:
  "callSummarizationApi_index [] fr = None \<and>
   (apiUrl \<noteq> [] \<longrightarrow>
      callSummarizationApi_index apiUrl FetchThrew = Some ''[Error: Network/Fetch failed]'' \<and>
      callSummarizationApi_index apiUrl (Response status Unreadable) =
        Some ''[Error: Network/Fetch failed]'' \<and>
      (\<not> response_ok status \<and> b \<noteq> Unreadable \<longrightarrow>
         callSummarizationApi_index apiUrl (Response status b) =
           Some (''[Error: API response '' @ show_nat status @ '']'')) \<and>
      (response_ok status \<longrightarrow>
         callSummarizationApi_index apiUrl (Response status NotJson) =
           Some ''[Error: Network/Fetch failed]'' \<and>
         callSummarizationApi_index apiUrl (Response status (JsonBody None)) = None \<and>
         callSummarizationApi_index apiUrl (Response status (JsonBody (Some s))) =
           (if s = [] then None else Some s)))"
  by (cases b) (simp_all add: callSummarizationApi_index_def)

lemma diagnostics_startWith_Error:
  "startsWith ''[Error: Network/Fetch failed]'' ''[Error:'' \<and>
   startsWith (''[Error: API response '' @ rest) ''[Error:''"
  by (simp add: startsWith_def)

text \<open>
  Claim C1 (as amended). \<^verbatim>\<open>summarizeAllBlocks\<close> (index.js), when no IndexedDB request error
  aborts the pass, returns one summary per block, in block order. A block found in the
  cache keeps its cached summary. A block that is not cached gets what the client
  returned, and the placeholder \<^verbatim>\<open>[Summary generation failed for block N]\<close>, \<open>N\<close> counted from
  1, only when the client returned \<^verbatim>\<open>null\<close>. The client returns \<^verbatim>\<open>null\<close> when no endpoint is
  configured or a success response has no summary or an empty one; it returns the
  diagnostic \<^verbatim>\<open>[Error: API response N]\<close> for an error status and
  \<^verbatim>\<open>[Error: Network/Fetch failed]\<close> when the request or the reading of the body throws;
  otherwise it returns the summary of the response. \<open>hasError\<close> is true exactly when, for
  some block that is not cached, the client returned \<^verbatim>\<open>null\<close> or a string that starts with
  \<^verbatim>\<open>[Error:\<close>: that is every failure of the client, and also a success response whose summary
  text itself starts with \<^verbatim>\<open>[Error:\<close>. The blocks after a failed one are processed all the
  same. The loop of \<^verbatim>\<open>processHistoryForSummarization\<close> (script.js) has no error flag and its
  placeholder is \<^verbatim>\<open>[Error summarizing block N]\<close>; it also returns one summary per block in
  order, and every cached or fetched summary is kept.
\<close>

theorem partial_failure_containment:
  assumes "\<forall>i<length bs. readFault (env i) \<noteq> DbRequestFailed \<and> writeFault (env i) \<noteq> DbRequestFailed"
  shows "(\<exists>summaries hasError st'.
     summarizeAllBlocks apiUrl env bs st = (Inr (summaries, hasError), st') \<and>
     length summaries = length bs \<and>
     (hasError \<longleftrightarrow>
        (\<exists>i<length bs. blockFailed apiUrl (env i) (bs ! i) (cacheBefore_index apiUrl env bs st i))) \<and>
     (\<forall>i<length bs. blockSummaryOk_index apiUrl (env i) i (bs ! i)
        (cacheBefore_index apiUrl env bs st i) (summaries ! i))) \<and>
   (\<exists>summaries st'.
     processHistory_summaries apiUrl env' 0 bs [] st = (summaries, st') \<and>
     length summaries = length bs \<and>
     (\<forall>i<length bs. blockSummaryOk_script apiUrl (env' i) i (bs ! i)
        (cacheBefore_script apiUrl env' bs st i) (summaries ! i))) \<and>
   callSummarizationApi_index [] fr = None \<and>
   (apiUrl \<noteq> [] \<longrightarrow>
      callSummarizationApi_index apiUrl FetchThrew = Some ''[Error: Network/Fetch failed]'' \<and>
      callSummarizationApi_index apiUrl (Response status Unreadable) =
        Some ''[Error: Network/Fetch failed]'' \<and>
      (\<not> response_ok status \<and> b \<noteq> Unreadable \<longrightarrow>
         callSummarizationApi_index apiUrl (Response status b) =
           Some (''[Error: API response '' @ show_nat status @ '']'')) \<and>
      (response_ok status \<longrightarrow>
         callSummarizationApi_index apiUrl (Response status NotJson) =
           Some ''[Error: Network/Fetch failed]'' \<and>
         callSummarizationApi_index apiUrl (Response status (JsonBody None)) = None \<and>
         callSummarizationApi_index apiUrl (Response status (JsonBody (Some s))) =
           (if s = [] then None else Some s))) \<and>
   startsWith ''[Error: Network/Fetch failed]'' ''[Error:'' \<and>
   startsWith (''[Error: API response '' @ show_nat status @ '']'') ''[Error:''"
  using summarizeAllBlocks_run [OF assms, of apiUrl st]
    processHistory_summaries_run [of apiUrl env' bs st]
    callSummarizationApi_index_results [of fr apiUrl status b s]
    diagnostics_startWith_Error [of "show_nat status @ '']''"]
  by blast

theorem partial_failure_containment_witness:
  "fst (summarizeAllBlocks ''http://api'' ex_env ex_blocks ex_cache) =
     Inr ([''sum one'', ''[Summary generation failed for block 2]'', ''old summary''], True) \<and>
   blockSummaryOk_index ''http://api'' (ex_env 1) 1 (ex_blocks ! 1)
     (cacheBefore_index ''http://api'' ex_env ex_blocks ex_cache 1)
     ''[Summary generation failed for block 2]'' \<and>
   blockSummaryOk_index ''http://api'' (ex_env 2) 2 (ex_blocks ! 2)
     (cacheBefore_index ''http://api'' ex_env ex_blocks ex_cache 2) ''old summary'' \<and>
   fst (processHistory_summaries ''http://api'' ex_env_script 0 ex_blocks [] ex_cache) =
     [''sum one'', ''[Error summarizing block 2]'', ''old summary''] \<and>
   blockSummaryOk_script ''http://api'' (ex_env_script 1) 1 (ex_blocks ! 1)
     (cacheBefore_script ''http://api'' ex_env_script ex_blocks ex_cache 1)
     ''[Error summarizing block 2]'' \<and>
   callSummarizationApi_index ''http://api'' (Response 500 NotJson) = Some ''[Error: API response 500]'' \<and>
   startsWith ''[Error: API response 500]'' ''[Error:'' \<and>
   fst (summarizeAllBlocks ''http://api'' ex_env_errtext [ex_blocks ! 0] ex_cache) =
     Inr ([''[Error: from endpoint]''], True)"
proof -
  have hyp: "\<forall>i<length ex_blocks.
      readFault (ex_env i) \<noteq> DbRequestFailed \<and> writeFault (ex_env i) \<noteq> DbRequestFailed"
    by (simp add: ex_env_def)
  have v: "fst (summarizeAllBlocks ''http://api'' ex_env ex_blocks ex_cache) =
     Inr ([''sum one'', ''[Summary generation failed for block 2]'', ''old summary''], True)"
    by code_simp
  have w: "fst (processHistory_summaries ''http://api'' ex_env_script 0 ex_blocks [] ex_cache) =
     [''sum one'', ''[Error summarizing block 2]'', ''old summary'']"
    by code_simp
  have x: "fst (summarizeAllBlocks ''http://api'' ex_env_errtext [ex_blocks ! 0] ex_cache) =
     Inr ([''[Error: from endpoint]''], True)"
    by code_simp
  have len: "length ex_blocks = 3"
    by (simp add: ex_blocks_def)
  have n500: "show_nat 500 = ''500''"
    by code_simp
  have status: "''http://api'' \<noteq> [] \<and> \<not> response_ok 500 \<and> NotJson \<noteq> Unreadable"
    by (simp add: response_ok_def)
  note inst = partial_failure_containment
    [OF hyp, where apiUrl = "''http://api''" and st = ex_cache and env' = ex_env_script
      and status = 500 and b = NotJson]
  from inst obtain summaries hasError st' where
    run: "summarizeAllBlocks ''http://api'' ex_env ex_blocks ex_cache = (Inr (summaries, hasError), st')" and
    each: "\<forall>i<length ex_blocks. blockSummaryOk_index ''http://api'' (ex_env i) i (ex_blocks ! i)
        (cacheBefore_index ''http://api'' ex_env ex_blocks ex_cache i) (summaries ! i)"
    by blast
  from inst obtain summaries' st'' where
    run': "processHistory_summaries ''http://api'' ex_env_script 0 ex_blocks [] ex_cache = (summaries', st'')" and
    each': "\<forall>i<length ex_blocks. blockSummaryOk_script ''http://api'' (ex_env_script i) i (ex_blocks ! i)
        (cacheBefore_script ''http://api'' ex_env_script ex_blocks ex_cache i) (summaries' ! i)"
    by blast
  from inst status have client:
    "callSummarizationApi_index ''http://api'' (Response 500 NotJson) =
       Some (''[Error: API response '' @ show_nat 500 @ '']'')"
    "startsWith (''[Error: API response '' @ show_nat 500 @ '']'') ''[Error:''"
    by blast+
  from run v have s: "summaries = [''sum one'', ''[Summary generation failed for block 2]'', ''old summary'']"
    by simp
  from run' w have s': "summaries' = [''sum one'', ''[Error summarizing block 2]'', ''old summary'']"
    by simp
  from each [rule_format, of 1] each [rule_format, of 2] each' [rule_format, of 1] client
  show ?thesis
    by (simp add: v w x s s' len n500)
qed

text \<open>
  The claim as stated fails on \<^verbatim>\<open>index.js\<close>: a block that is not cached and whose request is
  answered with status 500 gets the client's diagnostic string, not the placeholder; and
  on \<^verbatim>\<open>script.js\<close> the placeholder has another text.
\<close>

theorem partial_failure_containment_counterexample:
  "fst (getSummaryFromCache_index DbOk ''b0'' ex_cache) = Inr None \<and>
   callSummarizationApi_index ''http://api'' (Response 500 NotJson) = Some ''[Error: API response 500]'' \<and>
   fst (summarizeAllBlocks ''http://api'' ex_env_500
          [\<lparr>hash = ''b0'', details = [\<lparr>name = ''U'', is_user = True, mes = ''hi''\<rparr>]\<rparr>] ex_cache) =
     Inr ([''[Error: API response 500]''], True) \<and>
   ''[Error: API response 500]'' \<noteq> ''[Summary generation failed for block 1]'' \<and>
   fst (processHistory_summaries ''http://api'' ex_env_500_script 0
          [\<lparr>hash = ''b0'', details = [\<lparr>name = ''U'', is_user = True, mes = ''hi''\<rparr>]\<rparr>] [] ex_cache) =
     [''[Error summarizing block 1]'']"
  by code_simp



section \<open>Properties of the composer\<close>

lemma msgChars_nonneg: "0 \<le> msgChars m"
  by (simp add: msgChars_def)

lemma truncate_loop_spec:
  assumes "currentChars = sum_list (map msgChars acc)" and "currentChars \<le> remaining"
  shows "\<exists>j\<le>length xs.
     truncate_loop remaining xs acc currentChars = rev (take j xs) @ acc \<and>
     sum_list (map msgChars (rev (take j xs) @ acc)) \<le> remaining \<and>
     (j < length xs \<longrightarrow> remaining < sum_list (map msgChars (rev (take (Suc j) xs) @ acc)))"
  using assms
proof (induction xs arbitrary: acc currentChars)
  case Nil
  then show ?case by simp
next
  case (Cons x xs)
  show ?case
  proof (cases "currentChars + msgChars x \<le> remaining")
    case True
    have "currentChars + msgChars x = sum_list (map msgChars (x # acc))"
      using Cons.prems(1) by simp
    from Cons.IH [OF this True] obtain j where
      j: "j \<le> length xs" and
      res: "truncate_loop remaining xs (x # acc) (currentChars + msgChars x) = rev (take j xs) @ x # acc" and
      fit: "sum_list (map msgChars (rev (take j xs) @ x # acc)) \<le> remaining" and
      over: "j < length xs \<longrightarrow> remaining < sum_list (map msgChars (rev (take (Suc j) xs) @ x # acc))"
      by blast
    show ?thesis
    proof (intro exI [of _ "Suc j"] conjI impI)
      show "Suc j \<le> length (x # xs)" using j by simp
      show "truncate_loop remaining (x # xs) acc currentChars = rev (take (Suc j) (x # xs)) @ acc"
        using True res by simp
      show "sum_list (map msgChars (rev (take (Suc j) (x # xs)) @ acc)) \<le> remaining"
        using fit by simp
      assume "Suc j < length (x # xs)"
      then have "j < length xs" by simp
      with over show "remaining < sum_list (map msgChars (rev (take (Suc (Suc j)) (x # xs)) @ acc))"
        by simp
    qed
  next
    case False
    show ?thesis
    proof (intro exI [of _ 0] conjI impI)
      show "0 \<le> length (x # xs)" by simp
      show "truncate_loop remaining (x # xs) acc currentChars = rev (take 0 (x # xs)) @ acc"
        using False by simp
      show "sum_list (map msgChars (rev (take 0 (x # xs)) @ acc)) \<le> remaining"
        using Cons.prems by simp
      show "remaining < sum_list (map msgChars (rev (take (Suc 0) (x # xs)) @ acc))"
        using False Cons.prems(1) by simp
    qed
  qed
qed

lemma rev_take_rev: "rev (take j (rev xs)) = drop (length xs - j) xs"
  by (simp add: rev_take)

text \<open>
  Claim C6 (as amended). The budget is \<open>max(0, historySize * 4 - len(templateResult))\<close>.
  The walk goes from the most recent message to the oldest, adding for each message
  \<open>len(name) + 2 + len(text)\<close> when the message has a name and \<open>len(text)\<close> alone when it has
  none; a message is kept while the running total stays within the budget, and the walk
  stops at the first message that would overflow it. The kept messages are a contiguous
  suffix of the input, in the original order: the longest suffix whose total cost is
  within the budget.
\<close>

theorem truncation_keeps_longest_suffix:
  "remainingCharsForHistory historySize summaryPromptPart =
     max 0 (historySize * 4 - int (length summaryPromptPart)) \<and>
   (\<forall>m :: message. msgChars m = (if name m = [] then int (length (mes m)) else claimedChars m)) \<and>
   (\<exists>k\<le>length chatHistory.
      onPromptInput_truncate historySize summaryPromptPart chatHistory = drop k chatHistory \<and>
      sum_list (map msgChars (drop k chatHistory))
        \<le> remainingCharsForHistory historySize summaryPromptPart \<and>
      (0 < k \<longrightarrow>
         remainingCharsForHistory historySize summaryPromptPart
           < sum_list (map msgChars (drop (k - 1) chatHistory))))"
proof -
  let ?rem = "remainingCharsForHistory historySize summaryPromptPart"
  have nonneg: "(0::int) \<le> ?rem"
    by (simp add: remainingCharsForHistory_def)
  have "(0::int) = sum_list (map msgChars ([] :: message list))"
    by simp
  from truncate_loop_spec [OF this nonneg, of "rev chatHistory"] obtain j where
    j: "j \<le> length chatHistory" and
    res: "truncate_loop ?rem (rev chatHistory) [] 0 = rev (take j (rev chatHistory))" and
    fit: "sum_list (map msgChars (rev (take j (rev chatHistory)))) \<le> ?rem" and
    over: "j < length chatHistory \<longrightarrow>
       ?rem < sum_list (map msgChars (rev (take (Suc j) (rev chatHistory))))"
    by auto
  let ?k = "length chatHistory - j"
  have suffix: "\<exists>k\<le>length chatHistory.
      onPromptInput_truncate historySize summaryPromptPart chatHistory = drop k chatHistory \<and>
      sum_list (map msgChars (drop k chatHistory)) \<le> ?rem \<and>
      (0 < k \<longrightarrow> ?rem < sum_list (map msgChars (drop (k - 1) chatHistory)))"
  proof (intro exI [of _ ?k] conjI impI)
    show "?k \<le> length chatHistory" by simp
    show "onPromptInput_truncate historySize summaryPromptPart chatHistory = drop ?k chatHistory"
      using res by (simp add: onPromptInput_truncate_def rev_take_rev)
    show "sum_list (map msgChars (drop ?k chatHistory)) \<le> ?rem"
      using fit by (simp only: rev_take_rev)
    assume "0 < ?k"
    then have lt: "j < length chatHistory" by simp
    then have "length chatHistory - Suc j = ?k - 1" by simp
    with over lt show "?rem < sum_list (map msgChars (drop (?k - 1) chatHistory))"
      by (simp only: rev_take_rev)
  qed
  have cost: "\<forall>m :: message. msgChars m = (if name m = [] then int (length (mes m)) else claimedChars m)"
    by (simp add: msgChars_def claimedChars_def)
  from suffix cost show ?thesis
    by (simp add: remainingCharsForHistory_def)
qed

theorem truncation_keeps_longest_suffix_witness:
  "remainingCharsForHistory 2 ''x'' = 7 \<and>
   onPromptInput_truncate 2 ''x'' ex_chat = drop 2 ex_chat \<and>
   sum_list (map msgChars (drop 2 ex_chat)) = 7 \<and>
   sum_list (map msgChars (drop (2 - 1) ex_chat)) = 13 \<and>
   msgChars ex_named = claimedChars ex_named"
  using truncation_keeps_longest_suffix [of 2 "''x''" ex_chat]
  by (simp add: remainingCharsForHistory_def onPromptInput_truncate_def ex_chat_def ex_short_def
      ex_reply_def ex_named_def msgChars_def claimedChars_def)

text \<open>
  The claim as stated fails: a message without a name costs \<open>len(text)\<close>, not
  \<open>len(name) + 2 + len(text)\<close>. With a budget of 3 the message \<open>''ab''\<close> without a name is
  kept, although the claimed cost 4 exceeds the budget.
\<close>

theorem truncation_cost_counterexample:
  "remainingCharsForHistory 1 ''x'' = 3 \<and>
   claimedChars ex_nameless = 4 \<and>
   msgChars ex_nameless = 2 \<and>
   onPromptInput_truncate 1 ''x'' [ex_nameless] = [ex_nameless]"
  by (simp add: remainingCharsForHistory_def onPromptInput_truncate_def ex_nameless_def
      msgChars_def claimedChars_def)

section \<open>Properties of the trigger\<close>

lemma one_pass_initial: "one_pass (initial en threshold)"
  by (simp add: one_pass_def initial_def)

lemma one_pass_begin: "one_pass s \<Longrightarrow> one_pass (checkAndSummarize_begin chat s)"
  by (auto simp: one_pass_def checkAndSummarize_begin_def Let_def)

lemma one_pass_resume: "one_pass s \<Longrightarrow> one_pass (checkAndSummarize_resume k outcome s)"
  by (cases outcome) (auto simp: one_pass_def checkAndSummarize_resume_def Let_def)

lemma one_pass_fire: "one_pass s \<Longrightarrow> one_pass (fire ev s)"
proof (cases ev)
  case (MessageRendered chat)
  assume "one_pass s"
  with MessageRendered show ?thesis by (simp add: one_pass_begin)
next
  case (ForceUpdateClicked chat)
  assume "one_pass s"
  then have "one_pass (s\<lparr>lastMessageCount := 0\<rparr>)" by (simp add: one_pass_def)
  with ForceUpdateClicked show ?thesis by (simp add: forceSummarize_def one_pass_begin)
next
  case (PassResumes k outcome)
  assume "one_pass s"
  with PassResumes show ?thesis by (simp add: one_pass_resume)
next
  case (SettingsChanged en threshold)
  assume "one_pass s"
  with SettingsChanged show ?thesis by (simp add: one_pass_def)
next
  case ChatChanged
  assume "one_pass s"
  with ChatChanged show ?thesis by (simp add: one_pass_def)
next
  case CacheCleared
  assume "one_pass s"
  with CacheCleared show ?thesis by (simp add: one_pass_def)
qed

lemma reachable_one_pass: "reachable s \<Longrightarrow> one_pass s"
  by (induction rule: reachable.induct) (simp_all add: one_pass_initial one_pass_fire)

lemma resume_clears_flag:
  "k < length (passes s) \<Longrightarrow> \<not> inApiCall (checkAndSummarize_resume k outcome s)"
  by (cases outcome) (simp_all add: checkAndSummarize_resume_def Let_def)

text \<open>
  Claim C8. While the flag \<open>inApiCall\<close> is set, a call of \<^verbatim>\<open>checkAndSummarize\<close> returns at once
  and leaves the whole state as it was: no pass is started, nothing is recorded for later.
  In every reachable state at most one summarization pass is in flight, and the flag is
  set exactly when one is. When the pass in flight resumes, whether its awaited calls
  delivered summaries, no blocks or an exception, the flag is cleared and no pass is in
  flight. (\<^verbatim>\<open>forceSummarize\<close> resets \<open>lastMessageCount\<close> before it calls \<^verbatim>\<open>checkAndSummarize\<close>;
  the call itself changes nothing while the flag is set.)
\<close>

theorem single_pass_in_flight:
  "(inApiCall s \<longrightarrow> checkAndSummarize_begin chat s = s) \<and>
   (reachable s \<longrightarrow> length (passes s) \<le> 1 \<and> (inApiCall s \<longleftrightarrow> passes s \<noteq> [])) \<and>
   (k < length (passes s) \<longrightarrow> \<not> inApiCall (checkAndSummarize_resume k outcome s)) \<and>
   (reachable s \<and> k < length (passes s) \<longrightarrow> passes (checkAndSummarize_resume k outcome s) = [])"
proof (intro conjI impI)
  assume "inApiCall s"
  then show "checkAndSummarize_begin chat s = s"
    by (simp add: checkAndSummarize_begin_def)
next
  assume "reachable s"
  from reachable_one_pass [OF this]
  show "length (passes s) \<le> 1" and "inApiCall s \<longleftrightarrow> passes s \<noteq> []"
    by (simp_all add: one_pass_def)
next
  assume "k < length (passes s)"
  then show "\<not> inApiCall (checkAndSummarize_resume k outcome s)"
    by (rule resume_clears_flag)
next
  assume a: "reachable s \<and> k < length (passes s)"
  then have "one_pass (checkAndSummarize_resume k outcome s)"
    by (simp add: reachable_one_pass one_pass_resume)
  with resume_clears_flag [of k s outcome] a
  show "passes (checkAndSummarize_resume k outcome s) = []"
    by (simp add: one_pass_def)
qed

theorem single_pass_in_flight_witness:
  "reachable (fire (MessageRendered ex_chat) (initial True 2)) \<and>
   inApiCall (fire (MessageRendered ex_chat) (initial True 2)) \<and>
   passes (fire (MessageRendered ex_chat) (initial True 2)) = [\<lparr>currentMessageCount = 3\<rparr>] \<and>
   checkAndSummarize_begin ex_chat (fire (MessageRendered ex_chat) (initial True 2)) =
     fire (MessageRendered ex_chat) (initial True 2) \<and>
   \<not> inApiCall (checkAndSummarize_resume 0 Threw (fire (MessageRendered ex_chat) (initial True 2))) \<and>
   passes (checkAndSummarize_resume 0 (Summaries [''one'', ''two''] False)
             (fire (MessageRendered ex_chat) (initial True 2))) = []"
proof -
  let ?s = "fire (MessageRendered ex_chat) (initial True 2)"
  have r: "reachable ?s"
    by (intro reachable.intros)
  have p: "passes ?s = [\<lparr>currentMessageCount = 3\<rparr>]" and f: "inApiCall ?s"
    by (simp_all add: checkAndSummarize_begin_def initial_def ex_chat_def ex_short_def
        ex_reply_def ex_named_def)
  from single_pass_in_flight [of ?s ex_chat 0 Threw]
    single_pass_in_flight [of ?s ex_chat 0 "Summaries [''one'', ''two''] False"] r p f
  show ?thesis by simp
qed

end
